theory Spec2Isabelle
  imports Complex_Main "HOL-Library.AList"
begin

section \<open>Monte Carlo estimation (sampling cell of the introduction notebook)\<close>

text \<open>
  The cell draws samples with the engine and then counts, per atom, in how many samples
  the atom is true:
  \<^verbatim>\<open>
  result = list(sample.sample(PrologString(model), n=1000, format='dict'))
  count = { atom: 0 for atom in result[0].keys() }
  for model_sample in result:
      for atom, value in model_sample.items():
          count[atom] += int(value)
  estimates = { atom: positive / len(result) for atom, positive in count.items() }
  \<close>
  A sample is a Python dict from atoms to booleans; it is modelled as an association list
  in insertion order (its keys are distinct). \<open>result[0]\<close> raises IndexError on an empty
  list, \<open>count[atom] += ...\<close> raises KeyError on an atom that is not a key of \<open>count\<close>,
  and \<open>/\<close> raises ZeroDivisionError on a zero divisor; the quotient is a real number
  here (Python computes it in floating point).
\<close>

datatype py_error = IndexError | KeyError | ZeroDivisionError

type_synonym 'a sample = "('a \<times> bool) list"
type_synonym 'a counts = "('a \<times> int) list"

definition py_int :: "bool \<Rightarrow> int" where
  "py_int value = (if value then 1 else 0)"

fun add_items :: "'a counts \<Rightarrow> 'a sample \<Rightarrow> py_error + 'a counts" where
  "add_items count [] = Inr count"
| "add_items count ((atom, value) # items) =
     (case map_of count atom of
        None \<Rightarrow> Inl KeyError
      | Some c \<Rightarrow> add_items (AList.update atom (c + py_int value) count) items)"

fun add_samples :: "'a counts \<Rightarrow> 'a sample list \<Rightarrow> py_error + 'a counts" where
  "add_samples count [] = Inr count"
| "add_samples count (model_sample # rest) =
     (case add_items count model_sample of
        Inl e \<Rightarrow> Inl e
      | Inr count' \<Rightarrow> add_samples count' rest)"

definition py_truediv :: "int \<Rightarrow> nat \<Rightarrow> py_error + real" where
  "py_truediv a b = (if b = 0 then Inl ZeroDivisionError else Inr (real_of_int a / real b))"

fun divide_all :: "'a counts \<Rightarrow> nat \<Rightarrow> py_error + ('a \<times> real) list" where
  "divide_all [] n = Inr []"
| "divide_all ((atom, positive) # rest) n =
     (case py_truediv positive n of
        Inl e \<Rightarrow> Inl e
      | Inr q \<Rightarrow> (case divide_all rest n of
                    Inl e \<Rightarrow> Inl e
                  | Inr est \<Rightarrow> Inr ((atom, q) # est)))"

definition estimates :: "'a sample list \<Rightarrow> py_error + ('a \<times> real) list" where
  "estimates result =
     (case result of
        [] \<Rightarrow> Inl IndexError
      | first # _ \<Rightarrow>
          (case add_samples (map (\<lambda>atom. (atom, 0)) (map fst first)) result of
             Inl e \<Rightarrow> Inl e
           | Inr count \<Rightarrow> divide_all count (length result)))"

definition positives :: "'a sample list \<Rightarrow> 'a \<Rightarrow> nat" where
  "positives result atom = length (filter (\<lambda>s. map_of s atom = Some True) result)"

section \<open>The engine interface the notebooks call\<close>

text \<open>
  Both notebooks call a third-party probabilistic logic programming engine; none of its
  code is part of the repository. The helper functions are therefore modelled over an
  arbitrary engine: a record with one field per API call the notebooks make. Every
  call takes the engine's state (its databases are mutable objects) and returns either
  the exception it raised (\<open>Inl\<close>) or its value (\<open>Inr\<close>), with the state it leaves.

  Python is dynamically typed: one type \<open>'v\<close> stands for the engine's objects (program,
  statement, database handle, ground formula, evaluatable), \<open>'t\<close> for query terms,
  \<open>'e\<close> for exceptions and \<open>'s\<close> for the engine's state. A probability is a real number
  (the engine returns a float).
\<close>

record ('s, 'e, 'v, 't) engine =
  api_PrologString :: "string \<Rightarrow> 's \<Rightarrow> ('e + 'v) \<times> 's"
  api_prepare :: "'v \<Rightarrow> 's \<Rightarrow> ('e + 'v) \<times> 's"
  api_extend :: "'v \<Rightarrow> 's \<Rightarrow> ('e + 'v) \<times> 's"
  api_iter :: "'v \<Rightarrow> 's \<Rightarrow> ('e + 'v list) \<times> 's"
  api_iadd :: "'v \<Rightarrow> 'v \<Rightarrow> 's \<Rightarrow> ('e + 'v) \<times> 's"
  api_ground_all :: "'v \<Rightarrow> 't list \<Rightarrow> ('t \<times> bool) list \<Rightarrow> 's \<Rightarrow> ('e + 'v) \<times> 's"
  api_get_evaluatable :: "'s \<Rightarrow> ('e + 'v) \<times> 's"
  api_create_from :: "'v \<Rightarrow> 'v \<Rightarrow> 's \<Rightarrow> ('e + 'v) \<times> 's"
  api_evaluate :: "'v \<Rightarrow> 's \<Rightarrow> ('e + ('t \<times> real) list) \<times> 's"

text \<open>
  The fields, in the order above: \<open>PrologString(model_str)\<close>, \<open>engine.prepare(program)\<close>,
  \<open>db.extend()\<close>, the iteration \<open>for statement in program\<close> (all statements at once),
  \<open>db2 += statement\<close> (Python rebinds \<open>db2\<close> to what the call returns),
  \<open>engine.ground_all(db, queries=queries, evidence=evidence)\<close>, \<open>get_evaluatable()\<close>,
  \<open>cls.create_from(x)\<close> and \<open>obj.evaluate()\<close>.
\<close>

datatype api =
  New_PrologString | Engine_prepare | DB_extend | Program_iter | DB_iadd
  | Engine_ground_all | Get_evaluatable | Create_from | Evaluate_call

text \<open>
  What a notebook cell runs in: the engine's state, what has been printed, and a log of
  the engine calls made so far, each with the exception it raised, if any. The log is
  auxiliary: no helper reads it.
\<close>

record ('s, 'e, 't) world =
  engine_state :: 's
  stdout :: "('t \<times> real) list list"
  calls :: "(api \<times> 'e option) list"

type_synonym ('s, 'e, 't, 'a) py = "('s, 'e, 't) world \<Rightarrow> ('e + 'a) \<times> ('s, 'e, 't) world"

definition py_return :: "'a \<Rightarrow> ('s, 'e, 't, 'a) py" where
  "py_return x = (\<lambda>w. (Inr x, w))"

text \<open>Sequencing: an exception of the first part ends the whole, as in Python without \<open>try\<close>.\<close>

definition py_bind :: "('s, 'e, 't, 'a) py \<Rightarrow> ('a \<Rightarrow> ('s, 'e, 't, 'b) py) \<Rightarrow> ('s, 'e, 't, 'b) py" where
  "py_bind m k = (\<lambda>w. case m w of (Inl e, w') \<Rightarrow> (Inl e, w') | (Inr x, w') \<Rightarrow> k x w')"

definition call :: "api \<Rightarrow> ('s \<Rightarrow> ('e + 'a) \<times> 's) \<Rightarrow> ('s, 'e, 't, 'a) py" where
  "call f op = (\<lambda>w. case op (engine_state w) of
     (r, s') \<Rightarrow> (r, w\<lparr>engine_state := s',
                       calls := calls w @ [(f, case r of Inl e \<Rightarrow> Some e | Inr _ \<Rightarrow> None)]\<rparr>))"

definition py_print :: "('t \<times> real) list \<Rightarrow> ('s, 'e, 't, unit) py" where
  "py_print x = (\<lambda>w. (Inr (), w\<lparr>stdout := stdout w @ [x]\<rparr>))"

section \<open>The helper functions\<close>

text \<open>
  From the first code cell of the MDP notebook:
  \<^verbatim>\<open>
  def precompile(model_str):
      db = engine.prepare(PrologString(model_str))
      return db
  \<close>
\<close>

definition precompile :: "('s, 'e, 'v, 't) engine \<Rightarrow> string \<Rightarrow> ('s, 'e, 't, 'v) py" where
  "precompile eng model_str =
     py_bind (call New_PrologString (api_PrologString eng model_str)) (\<lambda>program.
     py_bind (call Engine_prepare (api_prepare eng program)) (\<lambda>db.
     py_return db))"

text \<open>
  \<^verbatim>\<open>
  def extend(db, model_str):
      db2 = db.extend()
      for statement in PrologString(model_str):
          db2 += statement
      return db2
  \<close>
  \<open>add_statements\<close> is the body of the loop, run over the statements in order.
\<close>

fun add_statements :: "('s, 'e, 'v, 't) engine \<Rightarrow> 'v \<Rightarrow> 'v list \<Rightarrow> ('s, 'e, 't, 'v) py" where
  "add_statements eng db2 [] = py_return db2"
| "add_statements eng db2 (statement # rest) =
     py_bind (call DB_iadd (api_iadd eng db2 statement)) (\<lambda>db2'.
     add_statements eng db2' rest)"

definition extend :: "('s, 'e, 'v, 't) engine \<Rightarrow> 'v \<Rightarrow> string \<Rightarrow> ('s, 'e, 't, 'v) py" where
  "extend eng db model_str =
     py_bind (call DB_extend (api_extend eng db)) (\<lambda>db2.
     py_bind (call New_PrologString (api_PrologString eng model_str)) (\<lambda>program.
     py_bind (call Program_iter (api_iter eng program)) (\<lambda>statements.
     add_statements eng db2 statements)))"

text \<open>
  \<^verbatim>\<open>
  def evaluate(db):
      return get_evaluatable().create_from(db).evaluate()
  \<close>
\<close>

definition evaluate :: "('s, 'e, 'v, 't) engine \<Rightarrow> 'v \<Rightarrow> ('s, 'e, 't, ('t \<times> real) list) py" where
  "evaluate eng db =
     py_bind (call Get_evaluatable (api_get_evaluatable eng)) (\<lambda>cls.
     py_bind (call Create_from (api_create_from eng cls db)) (\<lambda>obj.
     call Evaluate_call (api_evaluate eng obj)))"

text \<open>
  \<^verbatim>\<open>
  def query(model, queries, evidence=None):
      if isinstance(model, str):
          db = precompile(model)
      else:
          db = model
      if evidence is None:
          evidence = []
      lf = engine.ground_all(db, queries=queries, evidence=evidence)
      return evaluate(lf)
  \<close>
  The argument \<open>model\<close> is a Python string or any other object; \<open>evidence\<close> is \<open>None\<close>
  or a list of pairs of a term and a truth value.
\<close>

datatype 'v model = Str string | Obj 'v

definition query ::
  "('s, 'e, 'v, 't) engine \<Rightarrow> 'v model \<Rightarrow> 't list \<Rightarrow> ('t \<times> bool) list option
     \<Rightarrow> ('s, 'e, 't, ('t \<times> real) list) py" where
  "query eng model queries evidence =
     py_bind (case model of Str model_str \<Rightarrow> precompile eng model_str
                          | Obj other \<Rightarrow> py_return other) (\<lambda>db.
     py_bind (py_return (case evidence of None \<Rightarrow> [] | Some given \<Rightarrow> given)) (\<lambda>evidence'.
     py_bind (call Engine_ground_all (api_ground_all eng db queries evidence')) (\<lambda>lf.
     evaluate eng lf)))"

text \<open>The call \<open>query(model, queries)\<close>: Python binds the omitted parameter to its default \<open>None\<close>.\<close>

definition query_default ::
  "('s, 'e, 'v, 't) engine \<Rightarrow> 'v model \<Rightarrow> 't list \<Rightarrow> ('s, 'e, 't, ('t \<times> real) list) py" where
  "query_default eng model queries = query eng model queries None"

text \<open>
  The MDP notebook's \<open>run\<close> returns the mapping:
  \<^verbatim>\<open>
  def run(model_str):
      db = precompile(model_str)
      return evaluate(db)
  \<close>
\<close>

definition run :: "('s, 'e, 'v, 't) engine \<Rightarrow> string \<Rightarrow> ('s, 'e, 't, ('t \<times> real) list) py" where
  "run eng model_str =
     py_bind (precompile eng model_str) (\<lambda>db.
     evaluate eng db)"

text \<open>
  The introduction notebook's \<open>run\<close> prints the mapping and returns \<open>None\<close>:
  \<^verbatim>\<open>
  def run(model_str):
      model = PrologString(model_str)
      print(get_evaluatable().create_from(model).evaluate())
  \<close>
\<close>

definition run_intro :: "('s, 'e, 'v, 't) engine \<Rightarrow> string \<Rightarrow> ('s, 'e, 't, unit) py" where
  "run_intro eng model_str =
     py_bind (call New_PrologString (api_PrologString eng model_str)) (\<lambda>model.
     py_bind (call Get_evaluatable (api_get_evaluatable eng)) (\<lambda>cls.
     py_bind (call Create_from (api_create_from eng cls model)) (\<lambda>obj.
     py_bind (call Evaluate_call (api_evaluate eng obj)) (\<lambda>result.
     py_print result))))"

section \<open>Observing a helper's engine calls\<close>

text \<open>The exceptions that the logged engine calls raised, in order.\<close>

definition raised :: "(api \<times> 'e option) list \<Rightarrow> 'e list" where
  "raised entries = concat (map (\<lambda>(f, r). case r of None \<Rightarrow> [] | Some e \<Rightarrow> [e]) entries)"

text \<open>
  A computation propagates the engine's exceptions when, from every world, the calls it
  logs (\<open>new\<close>) and its outcome agree: it ends in an exception \<open>e\<close> exactly when one of its
  engine calls raised, that call was its last, and \<open>e\<close> is what the call raised; it
  returns a value only when no engine call raised.
\<close>

definition propagates :: "('s, 'e, 't, 'a) py \<Rightarrow> bool" where
  "propagates c = (\<forall>w. \<exists>new. calls (snd (c w)) = calls w @ new \<and>
     (case fst (c w) of
        Inl e \<Rightarrow> raised new = [e] \<and> new \<noteq> [] \<and> snd (last new) = Some e
      | Inr x \<Rightarrow> raised new = []))"

text \<open>The names of the engine calls a computation makes when run from a world, in order.\<close>

definition api_calls :: "('s, 'e, 't, 'a) py \<Rightarrow> ('s, 'e, 't) world \<Rightarrow> api list" where
  "api_calls c w = map fst (drop (length (calls w)) (calls (snd (c w))))"

section \<open>The engine's contract on probabilities\<close>

text \<open>
  Section 6 of the spec: \<open>evaluate\<close> returns a mapping from queried terms to
  probabilities in the closed interval from 0 to 1. For an engine given as a parameter
  this is a condition on its \<open>evaluate\<close> call.
\<close>

definition unit_interval :: "('t \<times> real) list \<Rightarrow> bool" where
  "unit_interval mapping = list_all (\<lambda>(t, p). 0 \<le> p \<and> p \<le> 1) mapping"

definition engine_probabilistic :: "('s, 'e, 'v, 't) engine \<Rightarrow> bool" where
  "engine_probabilistic eng =
     (\<forall>obj s mapping s'. api_evaluate eng obj s = (Inr mapping, s') \<longrightarrow> unit_interval mapping)"

text \<open>
  The mapping that the engine's own calls \<open>get_evaluatable()\<close>, \<open>create_from(x)\<close> and
  \<open>evaluate()\<close> return for the object \<open>x\<close>, run one after the other from the engine
  state \<open>s\<close>.
\<close>

definition evaluated_by ::
  "('s, 'e, 'v, 't) engine \<Rightarrow> 'v \<Rightarrow> 's \<Rightarrow> ('t \<times> real) list \<Rightarrow> bool" where
  "evaluated_by eng x s mapping =
     (\<exists>cls s1 obj s2 s3.
        api_get_evaluatable eng s = (Inr cls, s1) \<and>
        api_create_from eng cls x s1 = (Inr obj, s2) \<and>
        api_evaluate eng obj s2 = (Inr mapping, s3))"

text \<open>
  The handle that the engine's own calls \<open>PrologString(model_str)\<close> and \<open>prepare\<close> return
  for a program text from the engine state \<open>s\<close>, and the engine state \<open>s2\<close> they leave.
\<close>

definition prepared_by ::
  "('s, 'e, 'v, 't) engine \<Rightarrow> string \<Rightarrow> 's \<Rightarrow> 'v \<Rightarrow> 's \<Rightarrow> bool" where
  "prepared_by eng model_str s db s2 =
     (\<exists>program s1.
        api_PrologString eng model_str s = (Inr program, s1) \<and>
        api_prepare eng program s1 = (Inr db, s2))"

section \<open>A reference engine\<close>

text \<open>
  Modelled from the spec: the engine (parser, databases, grounding, weighted model
  counting, sampling) is a third-party library and none of its code is among the
  repository's files. Every definition of this section follows the spec's sections 6
  and 7 and its glossary, for ground (variable-free) programs built from probabilistic
  facts, rules with negation, and query and evidence declarations. Together they
  instantiate the engine record above wherever a statement needs a concrete engine.
\<close>

subsection \<open>Programs\<close>

type_synonym atom = string

datatype literal = Pos atom | Neg atom

datatype statement =
  Fact real atom
  | Rule atom "literal list"
  | Query atom
  | Evidence atom bool

text \<open>
  \<open>Fact p a\<close> is \<open>p::a.\<close>, \<open>Rule h [l1, ..., ln]\<close> is \<open>h :- l1, ..., ln.\<close> with
  \<open>Neg a\<close> for \<open>not(a)\<close>, \<open>Query a\<close> is \<open>query(a).\<close> and \<open>Evidence a v\<close> is
  \<open>evidence(a, v).\<close> (\<open>evidence(a).\<close> is \<open>Evidence a True\<close>).
\<close>

subsection \<open>Possible worlds and weighted model counting\<close>

text \<open>
  Modelled from the spec: the engine's possible worlds are missing from the sources.
  Glossary: a probabilistic fact defines an independent boolean random variable; a
  possible world is a complete truth assignment to all probabilistic facts, with
  probability equal to the product of the chosen facts' success or failure probabilities.
  A world is a list of booleans, one per probabilistic fact in program order.
\<close>

definition facts :: "statement list \<Rightarrow> (real \<times> atom) list" where
  "facts program = concat (map (\<lambda>c. case c of Fact p a \<Rightarrow> [(p, a)] | _ \<Rightarrow> []) program)"

fun assignments :: "nat \<Rightarrow> bool list list" where
  "assignments 0 = [[]]"
| "assignments (Suc n) = concat (map (\<lambda>w. [True # w, False # w]) (assignments n))"

fun world_prob :: "(real \<times> atom) list \<Rightarrow> bool list \<Rightarrow> real" where
  "world_prob ((p, a) # fs) (b # w) = (if b then p else 1 - p) * world_prob fs w"
| "world_prob _ _ = 1"

fun true_facts :: "(real \<times> atom) list \<Rightarrow> bool list \<Rightarrow> atom list" where
  "true_facts ((p, a) # fs) (b # w) = (if b then a # true_facts fs w else true_facts fs w)"
| "true_facts _ _ = []"

text \<open>
  Modelled from the spec: the engine's resolution of rules is missing from the sources.
  Glossary: negation as failure, \<open>not(p)\<close> holds when \<open>p\<close> cannot be derived from the
  program's facts and rules. An atom is derived in a world when it is a fact chosen
  true or the head of a rule whose body literals all hold. The first argument bounds the
  depth of a derivation; a program without recursion needs at most one level per
  statement.
\<close>

fun derives :: "nat \<Rightarrow> statement list \<Rightarrow> atom list \<Rightarrow> atom \<Rightarrow> bool" where
  "derives 0 program chosen a = False"
| "derives (Suc n) program chosen a =
     (if a \<in> set chosen then True
      else list_ex (\<lambda>c. case c of
          Rule h body \<Rightarrow>
            if h = a
            then list_all (\<lambda>l. case l of Pos b \<Rightarrow> derives n program chosen b
                                    | Neg b \<Rightarrow> \<not> derives n program chosen b) body
            else False
        | _ \<Rightarrow> False) program)"

definition holds :: "statement list \<Rightarrow> bool list \<Rightarrow> atom \<Rightarrow> bool" where
  "holds program w a = derives (Suc (length program)) program (true_facts (facts program) w) a"

definition consistent :: "statement list \<Rightarrow> (atom \<times> bool) list \<Rightarrow> bool list \<Rightarrow> bool" where
  "consistent program evidence w = list_all (\<lambda>(a, v). holds program w a = v) evidence"

definition mass :: "statement list \<Rightarrow> bool list list \<Rightarrow> real" where
  "mass program ws = sum_list (map (world_prob (facts program)) ws)"

datatype ref_error = ParseError | TypeError | InvalidProbability | InconsistentEvidence

text \<open>
  Modelled from the spec: the engine's evaluation is missing from the sources.
  Glossary: weighted model counting computes the marginal probability of a queried atom
  by summing the probabilities of the possible worlds consistent with the query and the
  evidence; evidence conditions the distribution before querying. Section 7: evidence
  that no world satisfies is a failure of the engine.
\<close>

definition wmc ::
  "statement list \<Rightarrow> atom list \<Rightarrow> (atom \<times> bool) list \<Rightarrow> ref_error + (atom \<times> real) list" where
  "wmc program queries evidence =
     (if \<not> list_all (\<lambda>(p, a). 0 \<le> p \<and> p \<le> 1) (facts program) then Inl InvalidProbability
      else
        let ws = filter (consistent program evidence) (assignments (length (facts program)));
            z = mass program ws
        in if z = 0 then Inl InconsistentEvidence
           else Inr (map (\<lambda>q. (q, mass program (filter (\<lambda>w. holds program w q) ws) / z)) queries))"

subsection \<open>Objects and databases\<close>

text \<open>
  Modelled from the spec: the engine's databases are missing from the sources.
  Section 6: \<open>prepare\<close> compiles a program into a queryable database handle; \<open>extend\<close>
  layers additional statements onto an existing handle, producing a new handle. A
  database is an object in the engine's store: a handle \<open>DB i\<close> names the \<open>i\<close>-th
  object, which holds its own statements and the handle it was extended from.
\<close>

datatype node = Node (parent: "nat option") (own: "statement list")

type_synonym store = "node list"

datatype obj =
  Program string
  | Statement statement
  | DB nat
  | Formula "statement list" "atom list" "(atom \<times> bool) list"
  | Evaluatable_class
  | Evaluatable "statement list" "atom list" "(atom \<times> bool) list"

text \<open>The statements visible through a handle: those of the handle it extends, then its own.\<close>

function contents :: "store \<Rightarrow> nat \<Rightarrow> statement list" where
  "contents st i =
     (if i < length st
      then (case parent (st ! i) of
              None \<Rightarrow> []
            | Some j \<Rightarrow> if j < i then contents st j else []) @ own (st ! i)
      else [])"
  by pat_completeness auto
termination
  by (relation "measure (\<lambda>(st, i). i)") auto

declare contents.simps [simp del]

definition declared_queries :: "statement list \<Rightarrow> atom list" where
  "declared_queries program = concat (map (\<lambda>c. case c of Query a \<Rightarrow> [a] | _ \<Rightarrow> []) program)"

definition declared_evidence :: "statement list \<Rightarrow> (atom \<times> bool) list" where
  "declared_evidence program =
     concat (map (\<lambda>c. case c of Evidence a v \<Rightarrow> [(a, v)] | _ \<Rightarrow> []) program)"

subsection \<open>The API calls\<close>

text \<open>
  Modelled from the spec: the engine's API calls are missing from the sources; each
  follows its description in section 6, and a call on an object of the wrong kind
  raises. The parser is a parameter: \<open>parse\<close> gives the statements of a program text, or \<open>None\<close>
  for a text that is not a program. \<open>PrologString\<close> only wraps the text; the text is
  parsed when the program is iterated, prepared or turned into an evaluatable.
\<close>

definition ref_PrologString :: "string \<Rightarrow> store \<Rightarrow> (ref_error + obj) \<times> store" where
  "ref_PrologString model_str st = (Inr (Program model_str), st)"

definition ref_iter ::
  "(string \<Rightarrow> statement list option) \<Rightarrow> obj \<Rightarrow> store \<Rightarrow> (ref_error + obj list) \<times> store" where
  "ref_iter parse x st =
     (case x of
        Program text \<Rightarrow>
          (case parse text of
             None \<Rightarrow> (Inl ParseError, st)
           | Some cs \<Rightarrow> (Inr (map Statement cs), st))
      | _ \<Rightarrow> (Inl TypeError, st))"

definition ref_prepare ::
  "(string \<Rightarrow> statement list option) \<Rightarrow> obj \<Rightarrow> store \<Rightarrow> (ref_error + obj) \<times> store" where
  "ref_prepare parse x st =
     (case x of
        Program text \<Rightarrow>
          (case parse text of
             None \<Rightarrow> (Inl ParseError, st)
           | Some cs \<Rightarrow> (Inr (DB (length st)), st @ [Node None cs]))
      | _ \<Rightarrow> (Inl TypeError, st))"

definition ref_extend :: "obj \<Rightarrow> store \<Rightarrow> (ref_error + obj) \<times> store" where
  "ref_extend x st =
     (case x of
        DB i \<Rightarrow>
          if i < length st
          then (Inr (DB (length st)), st @ [Node (Some i) []])
          else (Inl TypeError, st)
      | _ \<Rightarrow> (Inl TypeError, st))"

definition ref_iadd :: "obj \<Rightarrow> obj \<Rightarrow> store \<Rightarrow> (ref_error + obj) \<times> store" where
  "ref_iadd x y st =
     (case x of
        DB i \<Rightarrow>
          (case y of
             Statement c \<Rightarrow>
               if i < length st
               then (Inr (DB i), st[i := Node (parent (st ! i)) (own (st ! i) @ [c])])
               else (Inl TypeError, st)
           | _ \<Rightarrow> (Inl TypeError, st))
      | _ \<Rightarrow> (Inl TypeError, st))"

definition ref_ground_all ::
  "obj \<Rightarrow> atom list \<Rightarrow> (atom \<times> bool) list \<Rightarrow> store \<Rightarrow> (ref_error + obj) \<times> store" where
  "ref_ground_all x queries evidence st =
     (case x of
        DB i \<Rightarrow>
          if i < length st
          then (Inr (Formula (contents st i) queries evidence), st)
          else (Inl TypeError, st)
      | _ \<Rightarrow> (Inl TypeError, st))"

definition ref_get_evaluatable :: "store \<Rightarrow> (ref_error + obj) \<times> store" where
  "ref_get_evaluatable st = (Inr Evaluatable_class, st)"

definition ref_create_from ::
  "(string \<Rightarrow> statement list option) \<Rightarrow> obj \<Rightarrow> obj \<Rightarrow> store \<Rightarrow> (ref_error + obj) \<times> store" where
  "ref_create_from parse cls x st =
     (case cls of
        Evaluatable_class \<Rightarrow>
          (case x of
             Program text \<Rightarrow>
               (case parse text of
                  None \<Rightarrow> (Inl ParseError, st)
                | Some cs \<Rightarrow>
                    (Inr (Evaluatable cs (declared_queries cs) (declared_evidence cs)), st))
           | DB i \<Rightarrow>
               if i < length st
               then (Inr (Evaluatable (contents st i) (declared_queries (contents st i))
                            (declared_evidence (contents st i))), st)
               else (Inl TypeError, st)
           | Formula cs queries evidence \<Rightarrow> (Inr (Evaluatable cs queries evidence), st)
           | _ \<Rightarrow> (Inl TypeError, st))
      | _ \<Rightarrow> (Inl TypeError, st))"

definition ref_evaluate :: "obj \<Rightarrow> store \<Rightarrow> (ref_error + (atom \<times> real) list) \<times> store" where
  "ref_evaluate x st =
     (case x of
        Evaluatable cs queries evidence \<Rightarrow> (wmc cs queries evidence, st)
      | _ \<Rightarrow> (Inl TypeError, st))"

definition ref_engine ::
  "(string \<Rightarrow> statement list option) \<Rightarrow> (store, ref_error, obj, atom) engine" where
  "ref_engine parse =
     \<lparr>api_PrologString = ref_PrologString,
      api_prepare = ref_prepare parse,
      api_extend = ref_extend,
      api_iter = ref_iter parse,
      api_iadd = ref_iadd,
      api_ground_all = ref_ground_all,
      api_get_evaluatable = ref_get_evaluatable,
      api_create_from = ref_create_from parse,
      api_evaluate = ref_evaluate\<rparr>"

subsection \<open>Programs of the introduction notebook\<close>

text \<open>
  Modelled from the spec: the engine's parser is missing from the sources. The texts of
  the models \<open>m1\<close> and \<open>m4\<close> are the strings the notebook passes to \<open>run\<close>; the
  statements they denote are transcribed by hand, and \<open>notebook_parse\<close> reads these two
  texts and rejects every other.
\<close>

definition m1 :: string where
  "m1 = ''\<newline>0.65::a.\<newline>0.10::b.\<newline>query(a).\<newline>query(b).\<newline>''"

definition m1_program :: "statement list" where
  "m1_program = [Fact 0.65 ''a'', Fact 0.10 ''b'', Query ''a'', Query ''b'']"

definition m4 :: string where
  "m4 = ''\<newline>0.65::a.\<newline>0.10::b.\<newline>w1 :- a, b.\<newline>w2 :- a, not(b).\<newline>w3 :- not(a), b.\<newline>w4 :- not(a), not(b).\<newline>query(w1).\<newline>query(w2).\<newline>query(w3).\<newline>query(w4).\<newline>''"

definition m4_program :: "statement list" where
  "m4_program =
     [Fact 0.65 ''a'', Fact 0.10 ''b'',
      Rule ''w1'' [Pos ''a'', Pos ''b''],
      Rule ''w2'' [Pos ''a'', Neg ''b''],
      Rule ''w3'' [Neg ''a'', Pos ''b''],
      Rule ''w4'' [Neg ''a'', Neg ''b''],
      Query ''w1'', Query ''w2'', Query ''w3'', Query ''w4'']"

definition notebook_parse :: "string \<Rightarrow> statement list option" where
  "notebook_parse text =
     (if text = m1 then Some m1_program
      else if text = m4 then Some m4_program
      else None)"

definition world0 :: "(store, ref_error, atom) world" where
  "world0 = \<lparr>engine_state = [], stdout = [], calls = []\<rparr>"

text \<open>A world in which the handle \<open>DB 0\<close> is the database prepared from \<open>m1\<close>.\<close>

definition world1 :: "(store, ref_error, atom) world" where
  "world1 = \<lparr>engine_state = [Node None m1_program], stdout = [], calls = []\<rparr>"

section \<open>Verified properties\<close>

subsection \<open>Monte Carlo estimation\<close>

lemma add_items_ok:
  assumes "distinct (map fst s)" and "fst ` set s \<subseteq> fst ` set count"
  shows "\<exists>c'. add_items count s = Inr c' \<and> map fst c' = map fst count \<and>
     (\<forall>a. map_of c' a = (case map_of s a of None \<Rightarrow> map_of count a
                               | Some v \<Rightarrow> map_option (\<lambda>c. c + py_int v) (map_of count a)))"
  using assms
proof (induction s arbitrary: count)
  case Nil
  then show ?case by simp
next
  case (Cons item items)
  obtain atom v where item: "item = (atom, v)" by (cases item)
  from Cons.prems item have "atom \<in> fst ` set count" by auto
  then obtain c where c: "map_of count atom = Some c"
    by (metis domD dom_map_of_conv_image_fst)
  let ?count' = "AList.update atom (c + py_int v) count"
  have keys: "map fst ?count' = map fst count"
    using \<open>atom \<in> fst ` set count\<close> by (simp add: update_keys)
  have "set (map fst ?count') = set (map fst count)"
    using keys by simp
  then have keyset: "fst ` set ?count' = fst ` set count"
    by simp
  have d: "distinct (map fst items)" and fresh: "atom \<notin> fst ` set items"
    using Cons.prems item by auto
  have sub: "fst ` set items \<subseteq> fst ` set ?count'"
    using Cons.prems(2) keyset by auto
  from Cons.IH[OF d sub] obtain c' where
    r: "add_items ?count' items = Inr c'" and k: "map fst c' = map fst ?count'"
    and m: "\<forall>a. map_of c' a = (case map_of items a of None \<Rightarrow> map_of ?count' a
                               | Some v \<Rightarrow> map_option (\<lambda>c. c + py_int v) (map_of ?count' a))"
    by blast
  have none: "map_of items atom = None"
    using fresh by (simp add: map_of_eq_None_iff)
  have "add_items count (item # items) = Inr c'"
    using item c r by simp
  moreover have "map fst c' = map fst count" using k keys by simp
  moreover have "\<forall>a. map_of c' a = (case map_of (item # items) a of None \<Rightarrow> map_of count a
                               | Some v \<Rightarrow> map_option (\<lambda>c. c + py_int v) (map_of count a))"
  proof
    fix a
    show "map_of c' a = (case map_of (item # items) a of None \<Rightarrow> map_of count a
                               | Some v \<Rightarrow> map_option (\<lambda>c. c + py_int v) (map_of count a))"
    proof (cases "a = atom")
      case True
      then show ?thesis using m none c item by (simp add: update_conv')
    next
      case False
      then show ?thesis using m item by (simp add: update_conv' split: option.splits)
    qed
  qed
  ultimately show ?case by blast
qed


lemma positives_Cons:
  "positives (s # ss) a = (if map_of s a = Some True then 1 else 0) + positives ss a"
  by (simp add: positives_def)

lemma add_samples_ok:
  assumes "\<forall>s \<in> set ss. distinct (map fst s) \<and> fst ` set s = fst ` set count"
  shows "\<exists>c'. add_samples count ss = Inr c' \<and> map fst c' = map fst count \<and>
     (\<forall>a \<in> fst ` set count.
        map_of c' a = map_option (\<lambda>c. c + int (positives ss a)) (map_of count a))"
  using assms
proof (induction ss arbitrary: count)
  case Nil
  then show ?case by (simp add: positives_def option.map_ident)
next
  case (Cons s ss)
  have d: "distinct (map fst s)" and ks: "fst ` set s = fst ` set count"
    using Cons.prems by auto
  from add_items_ok[OF d] ks obtain c1 where
    r1: "add_items count s = Inr c1" and k1: "map fst c1 = map fst count"
    and m1: "\<forall>a. map_of c1 a = (case map_of s a of None \<Rightarrow> map_of count a
                               | Some v \<Rightarrow> map_option (\<lambda>c. c + py_int v) (map_of count a))"
    by (metis subset_refl)
  have "set (map fst c1) = set (map fst count)" using k1 by simp
  then have keyset: "fst ` set c1 = fst ` set count" by simp
  have "\<forall>s \<in> set ss. distinct (map fst s) \<and> fst ` set s = fst ` set c1"
    using Cons.prems keyset by simp
  from Cons.IH[OF this] obtain c' where
    r: "add_samples c1 ss = Inr c'" and k: "map fst c' = map fst c1"
    and m: "\<forall>a \<in> fst ` set c1.
        map_of c' a = map_option (\<lambda>c. c + int (positives ss a)) (map_of c1 a)"
    by blast
  have "add_samples count (s # ss) = Inr c'" using r1 r by simp
  moreover have "map fst c' = map fst count" using k k1 by simp
  moreover have "\<forall>a \<in> fst ` set count.
        map_of c' a = map_option (\<lambda>c. c + int (positives (s # ss) a)) (map_of count a)"
  proof
    fix a assume a: "a \<in> fst ` set count"
    then have "a \<in> fst ` set s" using ks by simp
    then obtain v where v: "map_of s a = Some v"
      by (metis domD dom_map_of_conv_image_fst)
    from a obtain c where c: "map_of count a = Some c"
      by (metis domD dom_map_of_conv_image_fst)
    have "map_of c1 a = Some (c + py_int v)" using m1 v c by simp
    moreover have "a \<in> fst ` set c1" using a keyset by blast
    then have "map_of c' a = map_option (\<lambda>c. c + int (positives ss a)) (map_of c1 a)"
      by (rule bspec[OF m])
    ultimately show "map_of c' a = map_option (\<lambda>c. c + int (positives (s # ss) a)) (map_of count a)"
      using v c by (cases v) (simp_all add: positives_Cons py_int_def)
  qed
  ultimately show ?case by blast
qed

lemma divide_all_ok:
  "0 < n \<Longrightarrow> divide_all count n = Inr (map (\<lambda>(a, p). (a, real_of_int p / real n)) count)"
  by (induction count) (auto simp: py_truediv_def)

lemma positives_le: "positives result a \<le> length result"
  by (simp add: positives_def)

text \<open>
  Claim C10. For every non-empty list of samples in which every sample has the atoms of the
  first sample as its keys, the estimation code raises no error (no KeyError in
  particular) and returns, for each atom, the number of samples in which the atom is
  true divided by the number of samples; every estimate lies between 0 and 1.
\<close>

theorem estimates_correct:
  assumes "result \<noteq> []"
    and "\<forall>s \<in> set result. distinct (map fst s) \<and> set (map fst s) = set (map fst (hd result))"
  shows "\<exists>est. estimates result = Inr est \<and> map fst est = map fst (hd result) \<and>
     (\<forall>atom \<in> set (map fst (hd result)).
        map_of est atom = Some (real (positives result atom) / real (length result)) \<and>
        0 \<le> real (positives result atom) / real (length result) \<and>
        real (positives result atom) / real (length result) \<le> 1)"
proof -
  from assms(1) obtain first rest where res: "result = first # rest"
    by (cases result) auto
  let ?count0 = "map (\<lambda>atom. (atom, 0::int)) (map fst first)"
  have k0: "map fst ?count0 = map fst first" by (simp add: comp_def)
  then have "set (map fst ?count0) = set (map fst first)" by simp
  then have ks0: "fst ` set ?count0 = fst ` set first" by (simp only: set_map)
  have pre: "\<forall>s \<in> set result. distinct (map fst s) \<and> fst ` set s = fst ` set ?count0"
    using assms(2) res ks0 by simp
  from add_samples_ok[OF pre] obtain count where
    r: "add_samples ?count0 result = Inr count" and k: "map fst count = map fst ?count0"
    and m: "\<forall>a \<in> fst ` set ?count0.
        map_of count a = map_option (\<lambda>c. c + int (positives result a)) (map_of ?count0 a)"
    by blast
  let ?n = "length result"
  let ?est = "map (\<lambda>(a, p). (a, real_of_int p / real ?n)) count"
  have n: "0 < ?n" using res by simp
  have e: "estimates result = Inr ?est"
    using r res divide_all_ok[OF n, of count] by (simp add: estimates_def)
  have ke: "map fst ?est = map fst (hd result)"
    using k k0 res by (simp add: comp_def case_prod_unfold)
  have vals: "\<forall>atom \<in> set (map fst (hd result)).
        map_of ?est atom = Some (real (positives result atom) / real ?n) \<and>
        0 \<le> real (positives result atom) / real ?n \<and>
        real (positives result atom) / real ?n \<le> 1"
  proof
    fix atom assume "atom \<in> set (map fst (hd result))"
    then have a: "atom \<in> fst ` set ?count0" using res ks0 by simp
    have z: "map_of ?count0 atom = Some 0"
      using a by (induction first) auto
    have "map_of count atom = map_option (\<lambda>c. c + int (positives result atom)) (map_of ?count0 atom)"
      using a by (rule bspec[OF m])
    then have "map_of count atom = Some (int (positives result atom))"
      using z by simp
    then have "map_of ?est atom = Some (real (positives result atom) / real ?n)"
      by (induction count) (auto split: if_splits)
    moreover have "real (positives result atom) / real ?n \<le> 1"
      using positives_le[of result atom] n by simp
    ultimately show "map_of ?est atom = Some (real (positives result atom) / real ?n) \<and>
        0 \<le> real (positives result atom) / real ?n \<and>
        real (positives result atom) / real ?n \<le> 1"
      by simp
  qed
  show ?thesis using e ke vals by blast
qed

text \<open>The theorem at three samples over the atoms \<open>a\<close> and \<open>b\<close>, the second in another key order.\<close>

theorem estimates_correct_witness:
  "estimates [[(''a'', True), (''b'', False)], [(''b'', True), (''a'', True)],
              [(''a'', False), (''b'', False)]]
     = Inr [(''a'', 2 / 3), (''b'', 1 / 3)]
   \<and> positives [[(''a'', True), (''b'', False)], [(''b'', True), (''a'', True)],
              [(''a'', False), (''b'', False)]] ''a'' = 2"
  using estimates_correct [of "[[(''a'', True), (''b'', False)], [(''b'', True), (''a'', True)],
              [(''a'', False), (''b'', False)]]"]
  by (simp add: estimates_def positives_def py_truediv_def py_int_def)

subsection \<open>Sequencing\<close>

lemma py_bind_return [simp]: "py_bind (py_return x) k = k x"
  by (simp add: py_bind_def py_return_def)

lemma py_bind_return_right [simp]: "py_bind m py_return = m"
  by (auto simp: py_bind_def py_return_def fun_eq_iff split: prod.splits sum.splits)

lemma py_bind_assoc: "py_bind (py_bind m k) h = py_bind m (\<lambda>x. py_bind (k x) h)"
  by (auto simp: py_bind_def fun_eq_iff split: prod.splits sum.splits)

lemma py_bind_Inl: "m w = (Inl e, w') \<Longrightarrow> py_bind m k w = (Inl e, w')"
  by (simp add: py_bind_def)

lemma py_bind_Inr: "m w = (Inr x, w') \<Longrightarrow> py_bind m k w = k x w'"
  by (simp add: py_bind_def)

lemma py_bind_InrD:
  "py_bind m k w = (Inr y, w') \<Longrightarrow> \<exists>x w1. m w = (Inr x, w1) \<and> k x w1 = (Inr y, w')"
  by (auto simp: py_bind_def split: prod.splits sum.splits)

lemma call_InrD:
  "call f op w = (Inr x, w') \<Longrightarrow>
   \<exists>s'. op (engine_state w) = (Inr x, s') \<and>
        w' = w\<lparr>engine_state := s', calls := calls w @ [(f, None)]\<rparr>"
  by (auto simp: call_def split: prod.splits)

subsection \<open>Exceptions of the engine\<close>

lemma raised_append [simp]: "raised (xs @ ys) = raised xs @ raised ys"
  by (simp add: raised_def)

lemma raised_Nil [simp]: "raised [] = []"
  by (simp add: raised_def)

lemma propagates_return: "propagates (py_return x)"
  by (simp add: propagates_def py_return_def)

lemma propagates_print: "propagates (py_print x)"
  by (simp add: propagates_def py_print_def)

lemma propagates_call: "propagates (call f op)"
  unfolding propagates_def
proof
  fix w :: "('a, 'b, 'c) world"
  obtain r s' where op: "op (engine_state w) = (r, s')"
    by (cases "op (engine_state w)")
  show "\<exists>new. calls (snd (call f op w)) = calls w @ new \<and>
     (case fst (call f op w) of
        Inl e \<Rightarrow> raised new = [e] \<and> new \<noteq> [] \<and> snd (last new) = Some e
      | Inr x \<Rightarrow> raised new = [])"
    using op by (cases r) (simp_all add: call_def raised_def)
qed

lemma propagates_bind:
  assumes m: "propagates m" and k: "\<And>x. propagates (k x)"
  shows "propagates (py_bind m k)"
  unfolding propagates_def
proof
  fix w :: "('a, 'b, 'c) world"
  obtain r w1 where mw: "m w = (r, w1)"
    by (cases "m w")
  from m obtain new1 where c1: "calls (snd (m w)) = calls w @ new1"
    and o1: "case fst (m w) of
        Inl e \<Rightarrow> raised new1 = [e] \<and> new1 \<noteq> [] \<and> snd (last new1) = Some e
      | Inr x \<Rightarrow> raised new1 = []"
    unfolding propagates_def by blast
  show "\<exists>new. calls (snd (py_bind m k w)) = calls w @ new \<and>
     (case fst (py_bind m k w) of
        Inl e \<Rightarrow> raised new = [e] \<and> new \<noteq> [] \<and> snd (last new) = Some e
      | Inr x \<Rightarrow> raised new = [])"
  proof (cases r)
    case (Inl e)
    then have "py_bind m k w = (Inl e, w1)"
      using mw by (simp add: py_bind_Inl)
    then show ?thesis using c1 o1 mw Inl by auto
  next
    case (Inr x)
    then have b: "py_bind m k w = k x w1"
      using mw by (simp add: py_bind_Inr)
    from k[of x] obtain new2 where c2: "calls (snd (k x w1)) = calls w1 @ new2"
      and o2: "case fst (k x w1) of
        Inl e \<Rightarrow> raised new2 = [e] \<and> new2 \<noteq> [] \<and> snd (last new2) = Some e
      | Inr y \<Rightarrow> raised new2 = []"
      unfolding propagates_def by blast
    have r1: "raised new1 = []" using o1 mw Inr by simp
    have "calls (snd (py_bind m k w)) = calls w @ (new1 @ new2)"
      using b c1 c2 mw by simp
    moreover have "case fst (py_bind m k w) of
        Inl e \<Rightarrow> raised (new1 @ new2) = [e] \<and> new1 @ new2 \<noteq> [] \<and> snd (last (new1 @ new2)) = Some e
      | Inr y \<Rightarrow> raised (new1 @ new2) = []"
      using o2 r1 b by (auto split: sum.splits)
    ultimately show ?thesis by blast
  qed
qed

lemma propagates_add_statements: "propagates (add_statements eng db2 statements)"
  by (induction statements arbitrary: db2)
     (simp_all add: propagates_return propagates_bind propagates_call)

lemma propagates_precompile: "propagates (precompile eng model_str)"
  unfolding precompile_def
  by (intro propagates_bind propagates_call propagates_return)

lemma propagates_evaluate: "propagates (evaluate eng db)"
  unfolding evaluate_def
  by (intro propagates_bind propagates_call propagates_return)

lemma propagates_extend: "propagates (extend eng db model_str)"
  unfolding extend_def
  by (intro propagates_bind propagates_call propagates_add_statements)

lemma propagates_query: "propagates (query eng model queries evidence)"
  unfolding query_def
  by (cases model)
     (auto intro!: propagates_bind propagates_call propagates_return
        propagates_precompile propagates_evaluate)

lemma propagates_run: "propagates (run eng model_str)"
  unfolding run_def
  by (intro propagates_bind propagates_precompile propagates_evaluate)

lemma propagates_run_intro: "propagates (run_intro eng model_str)"
  unfolding run_intro_def
  by (intro propagates_bind propagates_call propagates_print)

text \<open>
  Claim C3. No helper catches or changes an exception of the engine. For each of
  \<open>precompile\<close>, \<open>extend\<close>, \<open>evaluate\<close>, \<open>query\<close> and both \<open>run\<close> functions, over every
  engine, from every world and on every input: the helper ends in an exception exactly
  when one of the engine calls it made raised; that call is the last one it made, the
  helper's exception is the one the call raised, and there is no result beside it. A
  helper that returns a result made no engine call that raised.
\<close>

theorem helpers_propagate_engine_errors:
  "propagates (precompile eng model_str) \<and>
   propagates (extend eng db model_str) \<and>
   propagates (evaluate eng db) \<and>
   propagates (query eng model queries evidence) \<and>
   propagates (run eng model_str) \<and>
   propagates (run_intro eng model_str)"
  by (simp add: propagates_precompile propagates_extend propagates_evaluate
      propagates_query propagates_run propagates_run_intro)

subsection \<open>The two branches of \<open>query\<close>\<close>

text \<open>
  Claim C8. Passing a program string to \<open>query\<close> is the same as passing the handle that
  \<open>precompile\<close> returns for it: for every engine, program string, list of queries and
  evidence, \<open>query(s, queries, evidence)\<close> is the computation that runs \<open>precompile(s)\<close>
  and then \<open>query\<close> on the returned handle; it has the same result, the same effect on
  the engine and the same exception when one is raised.
\<close>

theorem query_string_is_query_precompiled:
  "query eng (Str s) queries evidence =
     py_bind (precompile eng s) (\<lambda>db. query eng (Obj db) queries evidence)"
  by (simp add: query_def)

text \<open>
  Claim C9. Leaving the evidence out, or passing \<open>None\<close>, is the same as passing the empty
  list: for every engine, model and list of queries, \<open>query(model, queries)\<close> and
  \<open>query(model, queries, None)\<close> are the computation \<open>query(model, queries, [])\<close>.
\<close>

theorem query_no_evidence_is_empty_evidence:
  "query_default eng model queries = query eng model queries (Some []) \<and>
   query eng model queries None = query eng model queries (Some [])"
  by (simp add: query_default_def query_def)

subsection \<open>The reference engine\<close>

lemma parse_m1: "notebook_parse m1 = Some m1_program"
  by (simp add: notebook_parse_def)

lemma parse_m4: "notebook_parse m4 = Some m4_program"
  by (simp add: notebook_parse_def m4_def m1_def)

text \<open>Running one step from a world written out field by field.\<close>

lemma call_world:
  "call f op \<lparr>engine_state = s, stdout = out, calls = l\<rparr> =
     (case op s of (r, s') \<Rightarrow>
        (r, \<lparr>engine_state = s', stdout = out,
              calls = l @ [(f, case r of Inl e \<Rightarrow> Some e | Inr _ \<Rightarrow> None)]\<rparr>))"
  by (simp add: call_def split: prod.splits)

lemma py_print_world:
  "py_print x \<lparr>engine_state = s, stdout = out, calls = l\<rparr> =
     (Inr (), \<lparr>engine_state = s, stdout = out @ [x], calls = l\<rparr>)"
  by (simp add: py_print_def)

lemmas ref_ops = ref_engine_def ref_PrologString_def ref_prepare_def ref_extend_def ref_iter_def
  ref_iadd_def ref_ground_all_def ref_get_evaluatable_def ref_create_from_def ref_evaluate_def

lemma contents_root: "contents [Node None cs] 0 = cs"
  by (simp add: contents.simps)

text \<open>The models \<open>m1\<close> and \<open>m4\<close>.\<close>

lemma facts_m1: "facts m1_program = [(0.65, ''a''), (0.10, ''b'')]"
  by (simp add: facts_def m1_program_def)

lemma queries_m1: "declared_queries m1_program = [''a'', ''b'']"
  by (simp add: declared_queries_def m1_program_def)

lemma evidence_m1: "declared_evidence m1_program = []"
  by (simp add: declared_evidence_def m1_program_def)

lemma worlds_m1:
  "assignments (length (facts m1_program)) =
     [[True, True], [False, True], [True, False], [False, False]]"
  by (simp add: facts_m1)

lemma holds_m1:
  "holds m1_program [b1, b2] ''a'' = b1"
  "holds m1_program [b1, b2] ''b'' = b2"
  by (simp_all add: holds_def facts_m1) (simp_all add: m1_program_def)

lemma wmc_m1:
  "wmc m1_program [''a'', ''b''] [] = Inr [(''a'', 0.65), (''b'', 0.10)]"
  unfolding wmc_def worlds_m1 consistent_def mass_def Let_def
  by (simp add: holds_m1 facts_m1)

lemma facts_m4: "facts m4_program = [(0.65, ''a''), (0.10, ''b'')]"
  by (simp add: facts_def m4_program_def)

lemma queries_m4: "declared_queries m4_program = [''w1'', ''w2'', ''w3'', ''w4'']"
  by (simp add: declared_queries_def m4_program_def)

lemma evidence_m4: "declared_evidence m4_program = []"
  by (simp add: declared_evidence_def m4_program_def)

lemma worlds_m4:
  "assignments (length (facts m4_program)) =
     [[True, True], [False, True], [True, False], [False, False]]"
  by (simp add: facts_m4)

lemma holds_m4:
  "holds m4_program [b1, b2] ''w1'' = (b1 \<and> b2)"
  "holds m4_program [b1, b2] ''w2'' = (b1 \<and> \<not> b2)"
  "holds m4_program [b1, b2] ''w3'' = (\<not> b1 \<and> b2)"
  "holds m4_program [b1, b2] ''w4'' = (\<not> b1 \<and> \<not> b2)"
  by (simp_all add: holds_def facts_m4) (simp_all add: m4_program_def)


lemma wmc_m4:
  "wmc m4_program (declared_queries m4_program) (declared_evidence m4_program) =
     Inr [(''w1'', 0.65 * 0.10), (''w2'', 0.65 * 0.90), (''w3'', 0.35 * 0.10), (''w4'', 0.35 * 0.90)]"
  unfolding wmc_def queries_m4 evidence_m4 worlds_m4 consistent_def mass_def Let_def
  by (simp add: holds_m4 facts_m4)


lemma total_mass: "sum_list (map (world_prob fs) (assignments (length fs))) = 1"
proof (induction fs)
  case Nil
  then show ?case by simp
next
  case (Cons f fs)
  obtain p a where f: "f = (p, a)" by (cases f)
  have "sum_list (map (world_prob ((p, a) # fs)) (concat (map (\<lambda>w. [True # w, False # w]) ws)))
        = sum_list (map (world_prob fs) ws)" for ws
    by (induction ws) (simp_all add: algebra_simps)
  then show ?case using Cons.IH f by simp
qed

text \<open>Weighted model counting stays within the unit interval.\<close>

lemma world_prob_nonneg:
  "list_all (\<lambda>(p, a). 0 \<le> p \<and> p \<le> 1) fs \<Longrightarrow> 0 \<le> world_prob fs w"
  by (induction fs w rule: world_prob.induct) auto

lemma mass_nonneg:
  "list_all (\<lambda>(p, a). 0 \<le> p \<and> p \<le> 1) (facts program) \<Longrightarrow> 0 \<le> mass program ws"
  unfolding mass_def by (rule sum_list_nonneg) (auto simp: world_prob_nonneg)

lemma mass_filter_le:
  assumes "list_all (\<lambda>(p, a). 0 \<le> p \<and> p \<le> 1) (facts program)"
  shows "mass program (filter P ws) \<le> mass program ws"
proof (induction ws)
  case Nil
  then show ?case by simp
next
  case (Cons w ws)
  have "0 \<le> world_prob (facts program) w"
    using assms by (rule world_prob_nonneg)
  then show ?case using Cons.IH by (simp add: mass_def)
qed

lemma wmc_unit_interval:
  assumes "wmc program queries evidence = Inr mapping"
  shows "unit_interval mapping"
proof -
  let ?ws = "filter (consistent program evidence) (assignments (length (facts program)))"
  let ?z = "mass program ?ws"
  have valid: "list_all (\<lambda>(p, a). 0 \<le> p \<and> p \<le> 1) (facts program)"
    using assms by (auto simp: wmc_def split: if_splits)
  have z: "?z \<noteq> 0"
    using assms valid by (auto simp: wmc_def Let_def split: if_splits)
  have "0 \<le> ?z" using valid by (rule mass_nonneg)
  then have zpos: "0 < ?z" using z by simp
  have m: "mapping = map (\<lambda>q. (q, mass program (filter (\<lambda>w. holds program w q) ?ws) / ?z)) queries"
    using assms valid z by (simp add: wmc_def Let_def)
  have "0 \<le> mass program (filter (\<lambda>w. holds program w q) ?ws) / ?z \<and>
        mass program (filter (\<lambda>w. holds program w q) ?ws) / ?z \<le> 1" for q
    using mass_nonneg[OF valid, of "filter (\<lambda>w. holds program w q) ?ws"]
      mass_filter_le[OF valid, of "\<lambda>w. holds program w q" ?ws] zpos
    by simp
  then show ?thesis
    unfolding unit_interval_def m by (simp add: list_all_iff)
qed

lemma ref_engine_probabilistic: "engine_probabilistic (ref_engine parse)"
  unfolding engine_probabilistic_def
  by (auto simp: ref_engine_def ref_evaluate_def wmc_unit_interval split: obj.splits)

subsection \<open>Runs on the reference engine\<close>

lemmas run_steps = world0_def world1_def py_bind_def py_return_def call_world py_print_world
  ref_ops parse_m1 parse_m4 contents_root queries_m1 evidence_m1

lemma run_m1:
  "run (ref_engine notebook_parse) m1 world0 =
     (Inr [(''a'', 0.65), (''b'', 0.10)],
      \<lparr>engine_state = [Node None m1_program], stdout = [],
        calls = [(New_PrologString, None), (Engine_prepare, None), (Get_evaluatable, None),
                 (Create_from, None), (Evaluate_call, None)]\<rparr>)"
  by (simp add: run_def precompile_def evaluate_def world0_def py_bind_def py_return_def
      call_world ref_ops parse_m1 contents_root queries_m1 evidence_m1 wmc_m1)

lemma run_intro_m4:
  "run_intro (ref_engine notebook_parse) m4 world0 =
     (Inr (),
      \<lparr>engine_state = [],
        stdout = [[(''w1'', 0.65 * 0.10), (''w2'', 0.65 * 0.90), (''w3'', 0.35 * 0.10),
                   (''w4'', 0.35 * 0.90)]],
        calls = [(New_PrologString, None), (Get_evaluatable, None),
                 (Create_from, None), (Evaluate_call, None)]\<rparr>)"
  by (simp add: run_intro_def world0_def py_bind_def call_world py_print_world ref_ops
      parse_m4 wmc_m4)

lemma precompile_world1:
  "precompile (ref_engine notebook_parse) m1 world1 =
     (Inr (DB 1),
      \<lparr>engine_state = [Node None m1_program, Node None m1_program], stdout = [],
        calls = [(New_PrologString, None), (Engine_prepare, None)]\<rparr>)"
  by (simp add: precompile_def run_steps)

lemma evaluate_world1:
  "evaluate (ref_engine notebook_parse) (DB 0) world1 =
     (Inr [(''a'', 0.65), (''b'', 0.10)],
      \<lparr>engine_state = [Node None m1_program], stdout = [],
        calls = [(Get_evaluatable, None), (Create_from, None), (Evaluate_call, None)]\<rparr>)"
  by (simp add: evaluate_def run_steps wmc_m1)

lemma extend_world1:
  "extend (ref_engine notebook_parse) (DB 0) m1 world1 =
     (Inr (DB 1),
      \<lparr>engine_state = [Node None m1_program, Node (Some 0) m1_program], stdout = [],
        calls = [(DB_extend, None), (New_PrologString, None), (Program_iter, None),
                 (DB_iadd, None), (DB_iadd, None), (DB_iadd, None), (DB_iadd, None)]\<rparr>)"
  by (simp add: extend_def run_steps m1_program_def)

lemma run_world1:
  "run (ref_engine notebook_parse) m1 world1 =
     (Inr [(''a'', 0.65), (''b'', 0.10)],
      \<lparr>engine_state = [Node None m1_program, Node None m1_program], stdout = [],
        calls = [(New_PrologString, None), (Engine_prepare, None), (Get_evaluatable, None),
                 (Create_from, None), (Evaluate_call, None)]\<rparr>)"
  by (simp add: run_def precompile_def evaluate_def run_steps contents.simps wmc_m1)

lemma query_Str_world1:
  "query (ref_engine notebook_parse) (Str m1) [''a'', ''b''] None world1 =
     (Inr [(''a'', 0.65), (''b'', 0.10)],
      \<lparr>engine_state = [Node None m1_program, Node None m1_program], stdout = [],
        calls = [(New_PrologString, None), (Engine_prepare, None), (Engine_ground_all, None),
                 (Get_evaluatable, None), (Create_from, None), (Evaluate_call, None)]\<rparr>)"
  by (simp add: query_def precompile_def evaluate_def run_steps contents.simps wmc_m1)

lemma query_Obj_world1:
  "query (ref_engine notebook_parse) (Obj (DB 0)) [''a'', ''b''] None world1 =
     (Inr [(''a'', 0.65), (''b'', 0.10)],
      \<lparr>engine_state = [Node None m1_program], stdout = [],
        calls = [(Engine_ground_all, None), (Get_evaluatable, None), (Create_from, None),
                 (Evaluate_call, None)]\<rparr>)"
  by (simp add: query_def precompile_def evaluate_def run_steps wmc_m1)

lemma calls_world1: "calls world1 = []" "engine_state world1 = [Node None m1_program]"
  by (simp_all add: world1_def)

subsection \<open>The engine calls each helper makes\<close>

lemma api_calls_precompile:
  "fst (precompile eng model_str w) = Inr db \<Longrightarrow>
   api_calls (precompile eng model_str) w = [New_PrologString, Engine_prepare]"
  by (auto simp: precompile_def py_bind_def py_return_def call_def api_calls_def
      split: prod.splits sum.splits)

lemma api_calls_evaluate:
  "fst (evaluate eng db w) = Inr mapping \<Longrightarrow>
   api_calls (evaluate eng db) w = [Get_evaluatable, Create_from, Evaluate_call]"
  by (auto simp: evaluate_def py_bind_def py_return_def call_def api_calls_def
      split: prod.splits sum.splits)

lemma api_calls_run:
  "fst (run eng model_str w) = Inr mapping \<Longrightarrow>
   api_calls (run eng model_str) w =
     [New_PrologString, Engine_prepare, Get_evaluatable, Create_from, Evaluate_call]"
  by (auto simp: run_def precompile_def evaluate_def py_bind_def py_return_def call_def api_calls_def
      split: prod.splits sum.splits)

lemma api_calls_query_Str:
  "fst (query eng (Str model_str) queries evidence w) = Inr mapping \<Longrightarrow>
   api_calls (query eng (Str model_str) queries evidence) w =
     [New_PrologString, Engine_prepare, Engine_ground_all, Get_evaluatable, Create_from,
      Evaluate_call]"
  by (auto simp: query_def precompile_def evaluate_def py_bind_def py_return_def call_def api_calls_def
      split: prod.splits sum.splits)

lemma api_calls_query_Obj:
  "fst (query eng (Obj db) queries evidence w) = Inr mapping \<Longrightarrow>
   api_calls (query eng (Obj db) queries evidence) w =
     [Engine_ground_all, Get_evaluatable, Create_from, Evaluate_call]"
  by (auto simp: query_def precompile_def evaluate_def py_bind_def py_return_def call_def api_calls_def
      split: prod.splits sum.splits)


lemma add_statements_calls:
  "add_statements eng db2 statements w = (Inr x, w') \<Longrightarrow>
   calls w' = calls w @ replicate (length statements) (DB_iadd, None)"
proof (induction statements arbitrary: db2 w)
  case Nil
  then show ?case by (simp add: py_return_def)
next
  case (Cons statement rest)
  from Cons.prems obtain d w1 where
    c: "call DB_iadd (api_iadd eng db2 statement) w = (Inr d, w1)"
    and r: "add_statements eng d rest w1 = (Inr x, w')"
    by (auto dest: py_bind_InrD)
  from c have "calls w1 = calls w @ [(DB_iadd, None)]"
    by (auto dest: call_InrD)
  then show ?case using Cons.IH[OF r] by (simp add: replicate_append_same)
qed

lemma api_calls_extend:
  assumes "api_extend eng db (engine_state w) = (Inr db2, s1)"
    and "api_PrologString eng model_str s1 = (Inr program, s2)"
    and "api_iter eng program s2 = (Inr statements, s3)"
    and "fst (extend eng db model_str w) = Inr x"
  shows "api_calls (extend eng db model_str) w =
     [DB_extend, New_PrologString, Program_iter] @ replicate (length statements) DB_iadd"
proof -
  let ?w3 = "w\<lparr>engine_state := s3,
                calls := calls w @ [(DB_extend, None), (New_PrologString, None), (Program_iter, None)]\<rparr>"
  have e: "extend eng db model_str w = add_statements eng db2 statements ?w3"
    using assms(1-3) by (simp add: extend_def py_bind_def call_def)
  obtain w' where a: "add_statements eng db2 statements ?w3 = (Inr x, w')"
    using assms(4) e by (metis prod.collapse)
  from add_statements_calls[OF a]
  have "calls w' = calls w @ [(DB_extend, None), (New_PrologString, None), (Program_iter, None)]
      @ replicate (length statements) (DB_iadd, None)"
    by simp
  then show ?thesis using e a by (simp add: api_calls_def)
qed

text \<open>
  Claim C1, as amended. Whenever they return, \<open>precompile\<close>, \<open>evaluate\<close> and \<open>run\<close> have
  made the same fixed sequence of two, three and five engine calls. \<open>query\<close> examines
  its \<open>model\<close> argument: on a string it precompiles first and makes six engine calls, on
  any other object it makes four. \<open>extend\<close> calls \<open>db.extend()\<close>, builds and iterates
  the program, and then makes one \<open>+=\<close> call per statement of the program.
\<close>

theorem helper_engine_calls:
  "(fst (precompile eng model_str w) = Inr db' \<longrightarrow>
      api_calls (precompile eng model_str) w = [New_PrologString, Engine_prepare]) \<and>
   (fst (evaluate eng db w) = Inr mapping \<longrightarrow>
      api_calls (evaluate eng db) w = [Get_evaluatable, Create_from, Evaluate_call]) \<and>
   (fst (run eng model_str w) = Inr mapping \<longrightarrow>
      api_calls (run eng model_str) w =
        [New_PrologString, Engine_prepare, Get_evaluatable, Create_from, Evaluate_call]) \<and>
   (fst (query eng (Str model_str) queries evidence w) = Inr mapping \<longrightarrow>
      api_calls (query eng (Str model_str) queries evidence) w =
        [New_PrologString, Engine_prepare, Engine_ground_all, Get_evaluatable, Create_from,
         Evaluate_call]) \<and>
   (fst (query eng (Obj db) queries evidence w) = Inr mapping \<longrightarrow>
      api_calls (query eng (Obj db) queries evidence) w =
        [Engine_ground_all, Get_evaluatable, Create_from, Evaluate_call]) \<and>
   (api_extend eng db (engine_state w) = (Inr db2, s1) \<and>
    api_PrologString eng model_str s1 = (Inr program, s2) \<and>
    api_iter eng program s2 = (Inr statements, s3) \<and>
    fst (extend eng db model_str w) = Inr db' \<longrightarrow>
      api_calls (extend eng db model_str) w =
        [DB_extend, New_PrologString, Program_iter] @ replicate (length statements) DB_iadd)"
  using api_calls_precompile[of eng model_str w db'] api_calls_evaluate[of eng db w mapping]
    api_calls_run[of eng model_str w mapping]
    api_calls_query_Str[of eng model_str queries evidence w mapping]
    api_calls_query_Obj[of eng db queries evidence w mapping]
    api_calls_extend[of eng db w db2 s1 model_str program s2 statements s3 db']
  by blast

text \<open>
  The theorem on the reference engine, from a world that holds the database of \<open>m1\<close>:
  every helper returns there, and \<open>m1\<close> has four statements.
\<close>

theorem helper_engine_calls_witness:
  "api_calls (precompile (ref_engine notebook_parse) m1) world1 =
     [New_PrologString, Engine_prepare] \<and>
   api_calls (evaluate (ref_engine notebook_parse) (DB 0)) world1 =
     [Get_evaluatable, Create_from, Evaluate_call] \<and>
   api_calls (run (ref_engine notebook_parse) m1) world1 =
     [New_PrologString, Engine_prepare, Get_evaluatable, Create_from, Evaluate_call] \<and>
   api_calls (query (ref_engine notebook_parse) (Str m1) [''a'', ''b''] None) world1 =
     [New_PrologString, Engine_prepare, Engine_ground_all, Get_evaluatable, Create_from,
      Evaluate_call] \<and>
   api_calls (query (ref_engine notebook_parse) (Obj (DB 0)) [''a'', ''b''] None) world1 =
     [Engine_ground_all, Get_evaluatable, Create_from, Evaluate_call] \<and>
   api_calls (extend (ref_engine notebook_parse) (DB 0) m1) world1 =
     [DB_extend, New_PrologString, Program_iter] @ replicate (length m1_program) DB_iadd"
proof -
  let ?s1 = "[Node None m1_program, Node (Some 0) []]"
  have e: "api_extend (ref_engine notebook_parse) (DB 0) (engine_state world1) = (Inr (DB 1), ?s1)"
    by (simp add: ref_ops calls_world1)
  have p: "api_PrologString (ref_engine notebook_parse) m1 ?s1 = (Inr (Program m1), ?s1)"
    by (simp add: ref_ops)
  have i: "api_iter (ref_engine notebook_parse) (Program m1) ?s1 =
      (Inr (map Statement m1_program), ?s1)"
    by (simp add: ref_ops parse_m1)
  show ?thesis
    using helper_engine_calls [where eng = "ref_engine notebook_parse" and model_str = m1
      and w = world1 and db = "DB 0" and db' = "DB 1" and queries = "[''a'', ''b'']"
      and evidence = None and mapping = "[(''a'', 0.65), (''b'', 0.10)]"
      and ?db2.0 = "DB 1" and ?s1.0 = ?s1 and program = "Program m1" and ?s2.0 = ?s1
      and statements = "map Statement m1_program" and ?s3.0 = ?s1] e p i
    by (simp add: precompile_world1 evaluate_world1 run_world1 query_Str_world1
        query_Obj_world1 extend_world1)
qed

text \<open>
  Claim C1 as stated fails: \<open>query\<close> on a program string makes six engine calls and on
  a handle four, so it distinguishes the two kinds of argument, and \<open>extend\<close> on the
  four-statement program \<open>m1\<close> makes seven; neither forwards to exactly one engine call.
\<close>

theorem query_and_extend_make_several_calls:
  "api_calls (query (ref_engine notebook_parse) (Str m1) [''a'', ''b''] None) world1 =
     [New_PrologString, Engine_prepare, Engine_ground_all, Get_evaluatable, Create_from,
      Evaluate_call] \<and>
   api_calls (query (ref_engine notebook_parse) (Obj (DB 0)) [''a'', ''b''] None) world1 =
     [Engine_ground_all, Get_evaluatable, Create_from, Evaluate_call] \<and>
   api_calls (extend (ref_engine notebook_parse) (DB 0) m1) world1 =
     [DB_extend, New_PrologString, Program_iter, DB_iadd, DB_iadd, DB_iadd, DB_iadd] \<and>
   length (api_calls (query (ref_engine notebook_parse) (Str m1) [''a'', ''b''] None) world1) \<noteq> 1 \<and>
   length (api_calls (extend (ref_engine notebook_parse) (DB 0) m1) world1) \<noteq> 1"
  by (simp add: api_calls_def query_Str_world1 query_Obj_world1 extend_world1
      calls_world1)

subsection \<open>What the two \<open>run\<close> functions print and return\<close>

lemma stdout_call [simp]: "stdout (snd (call f op w)) = stdout w"
  by (simp add: call_def split: prod.splits)

lemma stdout_precompile: "stdout (snd (precompile eng model_str w)) = stdout w"
  by (auto simp: precompile_def py_bind_def py_return_def call_def split: prod.splits sum.splits)

lemma stdout_evaluate: "stdout (snd (evaluate eng db w)) = stdout w"
  by (auto simp: evaluate_def py_bind_def py_return_def call_def split: prod.splits sum.splits)

lemma stdout_run: "stdout (snd (run eng model_str w)) = stdout w"
proof (cases "precompile eng model_str w")
  case (Pair r w1)
  have w1: "stdout w1 = stdout w"
    using stdout_precompile[of eng model_str w] Pair by simp
  show ?thesis
  proof (cases r)
    case (Inl e)
    then show ?thesis using Pair w1 by (simp add: run_def py_bind_def)
  next
    case (Inr db)
    then show ?thesis using Pair w1 stdout_evaluate[of eng db w1] by (simp add: run_def py_bind_def)
  qed
qed

lemma run_intro_prints:
  assumes "api_PrologString eng model_str (engine_state w) = (Inr model, s1)"
    and "api_get_evaluatable eng s1 = (Inr cls, s2)"
    and "api_create_from eng cls model s2 = (Inr obj, s3)"
    and "api_evaluate eng obj s3 = (Inr mapping, s4)"
  shows "fst (run_intro eng model_str w) = Inr ()"
    and "stdout (snd (run_intro eng model_str w)) = stdout w @ [mapping]"
  using assms by (simp_all add: run_intro_def py_bind_def call_def py_print_def)

lemma run_intro_fails_silently:
  "fst (run_intro eng model_str w) = Inl e \<Longrightarrow>
   stdout (snd (run_intro eng model_str w)) = stdout w"
  by (auto simp: run_intro_def py_bind_def call_def py_print_def split: prod.splits sum.splits)

lemma run_returns:
  assumes "api_PrologString eng model_str (engine_state w) = (Inr model, s1)"
    and "api_prepare eng model s1 = (Inr db, t2)"
    and "api_get_evaluatable eng t2 = (Inr cls, t3)"
    and "api_create_from eng cls db t3 = (Inr obj, t4)"
    and "api_evaluate eng obj t4 = (Inr mapping, t5)"
  shows "fst (run eng model_str w) = Inr mapping"
  using assms by (simp add: run_def precompile_def evaluate_def py_bind_def py_return_def call_def)

text \<open>
  Claim C5, as amended. The introduction notebook's \<open>run\<close> passes the program text to
  the engine and, when the engine's calls succeed, prints the mapping that the engine's
  \<open>evaluate\<close> returned and returns nothing; when it ends in an exception it has printed
  nothing. The MDP notebook's \<open>run\<close> returns the mapping that \<open>evaluate\<close> returned to
  its caller and never prints.
\<close>

theorem run_prints_or_returns:
  "(api_PrologString eng model_str (engine_state w) = (Inr model, s1) \<and>
    api_get_evaluatable eng s1 = (Inr cls, s2) \<and>
    api_create_from eng cls model s2 = (Inr obj, s3) \<and>
    api_evaluate eng obj s3 = (Inr mapping, s4) \<longrightarrow>
      fst (run_intro eng model_str w) = Inr () \<and>
      stdout (snd (run_intro eng model_str w)) = stdout w @ [mapping]) \<and>
   (fst (run_intro eng model_str w) = Inl e \<longrightarrow>
      stdout (snd (run_intro eng model_str w)) = stdout w) \<and>
   (api_PrologString eng model_str (engine_state w) = (Inr model, s1) \<and>
    api_prepare eng model s1 = (Inr db, t2) \<and>
    api_get_evaluatable eng t2 = (Inr cls', t3) \<and>
    api_create_from eng cls' db t3 = (Inr obj', t4) \<and>
    api_evaluate eng obj' t4 = (Inr mapping', t5) \<longrightarrow>
      fst (run eng model_str w) = Inr mapping') \<and>
   stdout (snd (run eng model_str w)) = stdout w"
  using run_intro_prints[of eng model_str w model s1 cls s2 obj s3 mapping s4]
    run_intro_fails_silently[of eng model_str w e]
    run_returns[of eng model_str w model s1 db t2 cls' t3 obj' t4 mapping' t5]
    stdout_run[of eng model_str w]
  by blast

text \<open>
  The theorem on the reference engine: both functions on the text \<open>m1\<close>, and the
  introduction notebook's \<open>run\<close> on a text that is not a program.
\<close>

theorem run_prints_or_returns_witness:
  "fst (run_intro (ref_engine notebook_parse) m1 world0) = Inr () \<and>
   stdout (snd (run_intro (ref_engine notebook_parse) m1 world0)) =
     [[(''a'', 0.65), (''b'', 0.10)]] \<and>
   fst (run (ref_engine notebook_parse) m1 world0) = Inr [(''a'', 0.65), (''b'', 0.10)] \<and>
   stdout (snd (run (ref_engine notebook_parse) m1 world0)) = [] \<and>
   fst (run_intro (ref_engine notebook_parse) ''0.65::a'' world0) = Inl ParseError \<and>
   stdout (snd (run_intro (ref_engine notebook_parse) ''0.65::a'' world0)) = []"
proof -
  let ?eng = "ref_engine notebook_parse"
  let ?db = "[Node None m1_program]"
  have a: "api_PrologString ?eng m1 (engine_state world0) = (Inr (Program m1), [])"
    "api_get_evaluatable ?eng [] = (Inr Evaluatable_class, [])"
    "api_create_from ?eng Evaluatable_class (Program m1) [] =
       (Inr (Evaluatable m1_program [''a'', ''b''] []), [])"
    "api_evaluate ?eng (Evaluatable m1_program [''a'', ''b''] []) [] =
       (Inr [(''a'', 0.65), (''b'', 0.10)], [])"
    by (simp_all add: ref_ops world0_def parse_m1 queries_m1 evidence_m1 wmc_m1)
  have b: "api_prepare ?eng (Program m1) [] = (Inr (DB 0), ?db)"
    "api_get_evaluatable ?eng ?db = (Inr Evaluatable_class, ?db)"
    "api_create_from ?eng Evaluatable_class (DB 0) ?db =
       (Inr (Evaluatable m1_program [''a'', ''b''] []), ?db)"
    "api_evaluate ?eng (Evaluatable m1_program [''a'', ''b''] []) ?db =
       (Inr [(''a'', 0.65), (''b'', 0.10)], ?db)"
    by (simp_all add: ref_ops parse_m1 contents_root queries_m1 evidence_m1 wmc_m1)
  have c: "fst (run_intro ?eng ''0.65::a'' world0) = Inl ParseError"
    by (simp add: run_intro_def run_steps notebook_parse_def m1_def m4_def)
  have w0: "stdout world0 = []" by (simp add: world0_def)
  from run_prints_or_returns [where eng = ?eng and model_str = m1 and w = world0
      and model = "Program m1" and ?s1.0 = "[]" and cls = Evaluatable_class and ?s2.0 = "[]"
      and obj = "Evaluatable m1_program [''a'', ''b''] []" and ?s3.0 = "[]"
      and mapping = "[(''a'', 0.65), (''b'', 0.10)]" and ?s4.0 = "[]"
      and db = "DB 0" and ?t2.0 = ?db and cls' = Evaluatable_class and ?t3.0 = ?db
      and obj' = "Evaluatable m1_program [''a'', ''b''] []" and ?t4.0 = ?db
      and mapping' = "[(''a'', 0.65), (''b'', 0.10)]" and ?t5.0 = ?db] a b w0
  have 1: "fst (run_intro ?eng m1 world0) = Inr () \<and>
     stdout (snd (run_intro ?eng m1 world0)) = [[(''a'', 0.65), (''b'', 0.10)]] \<and>
     fst (run ?eng m1 world0) = Inr [(''a'', 0.65), (''b'', 0.10)] \<and>
     stdout (snd (run ?eng m1 world0)) = []"
    by simp
  from run_prints_or_returns [where eng = ?eng and model_str = "''0.65::a''" and w = world0
      and e = ParseError] c w0
  have 2: "stdout (snd (run_intro ?eng ''0.65::a'' world0)) = []"
    by simp
  show ?thesis using 1 2 c by simp
qed

text \<open>
  Claim C5 as stated fails for the MDP notebook's \<open>run\<close>: on \<open>m1\<close> the evaluation
  succeeds and the function returns the mapping, and nothing has been printed.
\<close>

theorem mdp_run_prints_nothing:
  "fst (run (ref_engine notebook_parse) m1 world0) = Inr [(''a'', 0.65), (''b'', 0.10)] \<and>
   stdout (snd (run (ref_engine notebook_parse) m1 world0)) = [] \<and>
   stdout (snd (run (ref_engine notebook_parse) m1 world0)) \<noteq>
     stdout world0 @ [[(''a'', 0.65), (''b'', 0.10)]]"
  by (simp add: run_m1)

subsection \<open>Probabilities returned by the helpers\<close>

text \<open>
  Each helper returns a mapping exactly when the engine's own calls, run in the helper's
  order from the engine state it starts in, return that mapping.
\<close>

lemma evaluate_passes:
  "fst (evaluate eng db w) = Inr mapping \<longleftrightarrow> evaluated_by eng db (engine_state w) mapping"
  by (auto simp: evaluate_def evaluated_by_def py_bind_def call_def split: prod.splits sum.splits)

lemma evaluate_unit_interval:
  "engine_probabilistic eng \<Longrightarrow> evaluated_by eng x s mapping \<Longrightarrow> unit_interval mapping"
  unfolding engine_probabilistic_def evaluated_by_def by blast

lemma fst_py_bind_Inr:
  "fst (py_bind m k w) = Inr y \<longleftrightarrow> (\<exists>x w1. m w = (Inr x, w1) \<and> fst (k x w1) = Inr y)"
  by (auto simp: py_bind_def split: prod.splits sum.splits)

lemma call_Inr_iff:
  "call f op w = (Inr x, w1) \<longleftrightarrow>
     (\<exists>s'. op (engine_state w) = (Inr x, s') \<and>
           w1 = w\<lparr>engine_state := s', calls := calls w @ [(f, None)]\<rparr>)"
  by (auto simp: call_def split: prod.splits sum.splits)

lemma query_Obj_passes:
  "fst (query eng (Obj db) queries evidence w) = Inr mapping \<longleftrightarrow>
     (\<exists>lf s1. api_ground_all eng db queries (case evidence of None \<Rightarrow> [] | Some given \<Rightarrow> given)
                 (engine_state w) = (Inr lf, s1) \<and>
              evaluated_by eng lf s1 mapping)"
  by (auto simp: query_def fst_py_bind_Inr call_Inr_iff evaluate_passes)

lemma precompile_passes:
  "precompile eng model_str w = (Inr db, w1) \<longleftrightarrow>
     (\<exists>s2. prepared_by eng model_str (engine_state w) db s2 \<and>
           w1 = w\<lparr>engine_state := s2,
                   calls := calls w @ [(New_PrologString, None), (Engine_prepare, None)]\<rparr>)"
  by (auto simp: precompile_def prepared_by_def py_bind_def py_return_def call_def
      split: prod.splits sum.splits)

lemma after_precompile:
  "(\<exists>db w1. precompile eng model_str w = (Inr db, w1) \<and> R db (engine_state w1)) \<longleftrightarrow>
   (\<exists>db s2. prepared_by eng model_str (engine_state w) db s2 \<and> R db s2)"
  by (force simp: precompile_passes)

lemma query_Str_passes:
  "fst (query eng (Str model_str) queries evidence w) = Inr mapping \<longleftrightarrow>
     (\<exists>db s2. prepared_by eng model_str (engine_state w) db s2 \<and>
        (\<exists>lf s3. api_ground_all eng db queries
                    (case evidence of None \<Rightarrow> [] | Some given \<Rightarrow> given) s2 = (Inr lf, s3) \<and>
                 evaluated_by eng lf s3 mapping))"
proof -
  have "fst (query eng (Str model_str) queries evidence w) = Inr mapping \<longleftrightarrow>
      (\<exists>db w1. precompile eng model_str w = (Inr db, w1) \<and>
         fst (query eng (Obj db) queries evidence w1) = Inr mapping)"
    by (simp add: query_def fst_py_bind_Inr)
  then show ?thesis
    unfolding query_Obj_passes
    using after_precompile [of eng model_str w
        "\<lambda>db s. \<exists>lf s3. api_ground_all eng db queries
                    (case evidence of None \<Rightarrow> [] | Some given \<Rightarrow> given) s = (Inr lf, s3) \<and>
                 evaluated_by eng lf s3 mapping"]
    by simp
qed

lemma run_passes:
  "fst (run eng model_str w) = Inr mapping \<longleftrightarrow>
     (\<exists>db s2. prepared_by eng model_str (engine_state w) db s2 \<and>
        evaluated_by eng db s2 mapping)"
proof -
  have "fst (run eng model_str w) = Inr mapping \<longleftrightarrow>
      (\<exists>db w1. precompile eng model_str w = (Inr db, w1) \<and>
         evaluated_by eng db (engine_state w1) mapping)"
    by (simp add: run_def fst_py_bind_Inr evaluate_passes)
  then show ?thesis
    using after_precompile [of eng model_str w "\<lambda>db s. evaluated_by eng db s mapping"]
    by simp
qed

text \<open>The same on the reference engine, whose \<open>evaluate\<close> is weighted model counting.\<close>

lemma wmc_keys: "wmc program queries evidence = Inr mapping \<Longrightarrow> map fst mapping = queries"
  by (auto simp: wmc_def Let_def comp_def split: if_splits)

lemma ref_evaluated_by_Formula:
  "evaluated_by (ref_engine parse) (Formula cs queries evidence) st mapping \<longleftrightarrow>
     wmc cs queries evidence = Inr mapping"
  by (auto simp: evaluated_by_def ref_ops)

lemma ref_evaluated_by_DB:
  "evaluated_by (ref_engine parse) (DB i) st mapping \<longleftrightarrow>
     i < length st \<and>
     wmc (contents st i) (declared_queries (contents st i)) (declared_evidence (contents st i))
       = Inr mapping"
  by (auto simp: evaluated_by_def ref_ops split: if_splits)

lemma ref_ground_all_Inr:
  "api_ground_all (ref_engine parse) db queries evidence st = (Inr lf, st') \<Longrightarrow>
   \<exists>cs. lf = Formula cs queries evidence"
  by (auto simp: ref_ops split: obj.splits if_splits)

lemma ref_prepared_by:
  "prepared_by (ref_engine parse) text st db st' \<longleftrightarrow>
     (\<exists>cs. parse text = Some cs \<and> db = DB (length st) \<and> st' = st @ [Node None cs])"
  by (auto simp: prepared_by_def ref_ops split: option.splits)

lemma contents_prepared: "contents (st @ [Node None cs]) (length st) = cs"
  by (simp add: contents.simps[of _ "length st"])

lemma ref_evaluate_keys:
  assumes "fst (evaluate (ref_engine parse) (DB i) w) = Inr mapping"
  shows "map fst mapping = declared_queries (contents (engine_state w) i) \<and> unit_interval mapping"
  using assms by (auto simp: evaluate_passes ref_evaluated_by_DB dest: wmc_keys wmc_unit_interval)

lemma ref_query_keys:
  assumes "fst (query (ref_engine parse) model queries evidence w) = Inr mapping"
  shows "map fst mapping = queries \<and> unit_interval mapping"
proof (cases model)
  case (Str model_str)
  with assms obtain lf s3 cs where
    "evaluated_by (ref_engine parse) lf s3 mapping"
    "lf = Formula cs queries (case evidence of None \<Rightarrow> [] | Some given \<Rightarrow> given)"
    by (auto simp: query_Str_passes dest: ref_ground_all_Inr)
  then show ?thesis
    by (auto simp: ref_evaluated_by_Formula dest: wmc_keys wmc_unit_interval)
next
  case (Obj db)
  with assms obtain lf s3 cs where
    "evaluated_by (ref_engine parse) lf s3 mapping"
    "lf = Formula cs queries (case evidence of None \<Rightarrow> [] | Some given \<Rightarrow> given)"
    by (auto simp: query_Obj_passes dest: ref_ground_all_Inr)
  then show ?thesis
    by (auto simp: ref_evaluated_by_Formula dest: wmc_keys wmc_unit_interval)
qed

lemma ref_run_keys:
  assumes "fst (run (ref_engine parse) text w) = Inr mapping"
  shows "(\<exists>cs. parse text = Some cs \<and> map fst mapping = declared_queries cs) \<and>
         unit_interval mapping"
  using assms
  by (auto simp: run_passes ref_prepared_by ref_evaluated_by_DB contents_prepared
      dest: wmc_keys wmc_unit_interval)

text \<open>
  Claim C4. The helpers return the mapping of the engine's \<open>evaluate\<close> call as it is:
  \<open>evaluate(db)\<close> returns a mapping exactly when \<open>get_evaluatable()\<close>,
  \<open>create_from(db)\<close> and \<open>evaluate()\<close> return it for that handle; \<open>query\<close> returns a
  mapping exactly when the engine grounds the handle (prepared first from a string)
  against the given queries and evidence and returns the mapping for the ground
  formula; \<open>run\<close> returns a mapping exactly when the engine prepares the text and
  returns the mapping for the prepared handle. So over every engine whose \<open>evaluate\<close>
  call returns probabilities in the closed interval from 0 to 1 (section 6 of the
  spec), every probability in a mapping that \<open>evaluate\<close>, \<open>query\<close> or \<open>run\<close> returns lies
  in that interval. On the reference engine every mapping a helper returns is keyed by
  the queried terms, in order (the queries passed to \<open>query\<close>; the queries declared in
  the handle's statements for \<open>evaluate\<close>, in the program for \<open>run\<close>), and every
  probability in it lies between 0 and 1.
\<close>

theorem probabilities_in_unit_interval:
  "(fst (evaluate eng db w) = Inr mapping \<longleftrightarrow>
      evaluated_by eng db (engine_state w) mapping) \<and>
   (fst (query eng (Obj db) queries evidence w) = Inr mapping \<longleftrightarrow>
      (\<exists>lf s1. api_ground_all eng db queries (case evidence of None \<Rightarrow> [] | Some given \<Rightarrow> given)
                  (engine_state w) = (Inr lf, s1) \<and>
               evaluated_by eng lf s1 mapping)) \<and>
   (fst (query eng (Str model_str) queries evidence w) = Inr mapping \<longleftrightarrow>
      (\<exists>db' s2. prepared_by eng model_str (engine_state w) db' s2 \<and>
         (\<exists>lf s3. api_ground_all eng db' queries
                     (case evidence of None \<Rightarrow> [] | Some given \<Rightarrow> given) s2 = (Inr lf, s3) \<and>
                  evaluated_by eng lf s3 mapping))) \<and>
   (fst (run eng model_str w) = Inr mapping \<longleftrightarrow>
      (\<exists>db' s2. prepared_by eng model_str (engine_state w) db' s2 \<and>
         evaluated_by eng db' s2 mapping)) \<and>
   (engine_probabilistic eng \<and>
    (fst (evaluate eng db w) = Inr mapping \<or>
     fst (query eng model queries evidence w) = Inr mapping \<or>
     fst (run eng model_str w) = Inr mapping) \<longrightarrow>
      unit_interval mapping) \<and>
   (fst (evaluate (ref_engine parse) (DB i) rw) = Inr rmapping \<longrightarrow>
      map fst rmapping = declared_queries (contents (engine_state rw) i) \<and>
      unit_interval rmapping) \<and>
   (fst (query (ref_engine parse) rmodel rqueries revidence rw) = Inr rmapping \<longrightarrow>
      map fst rmapping = rqueries \<and> unit_interval rmapping) \<and>
   (fst (run (ref_engine parse) rtext rw) = Inr rmapping \<longrightarrow>
      (\<exists>cs. parse rtext = Some cs \<and> map fst rmapping = declared_queries cs) \<and>
      unit_interval rmapping)"
proof -
  have bound: "unit_interval mapping"
    if c: "engine_probabilistic eng"
      and r: "fst (evaluate eng db w) = Inr mapping \<or>
              fst (query eng model queries evidence w) = Inr mapping \<or>
              fst (run eng model_str w) = Inr mapping"
  proof -
    have "\<exists>x s. evaluated_by eng x s mapping"
    proof (cases model)
      case (Str s)
      then show ?thesis
        using r by (auto simp: evaluate_passes query_Str_passes run_passes)
    next
      case (Obj d)
      then show ?thesis
        using r by (auto simp: evaluate_passes query_Obj_passes run_passes)
    qed
    then obtain x s where "evaluated_by eng x s mapping" by blast
    with c show ?thesis by (rule evaluate_unit_interval)
  qed
  show ?thesis
    using evaluate_passes[of eng db w mapping]
      query_Obj_passes[of eng db queries evidence w mapping]
      query_Str_passes[of eng model_str queries evidence w mapping]
      run_passes[of eng model_str w mapping]
      bound
      ref_evaluate_keys[of parse i rw rmapping]
      ref_query_keys[of parse rmodel rqueries revidence rw rmapping]
      ref_run_keys[of parse rtext rw rmapping]
    by blast
qed

text \<open>
  The theorem on the reference engine, at the database of \<open>m1\<close> and the queries \<open>a\<close> and
  \<open>b\<close>: the four helper calls return the probabilities 0.65 and 0.10.
\<close>

theorem probabilities_in_unit_interval_witness:
  "fst (evaluate (ref_engine notebook_parse) (DB 0) world1) = Inr [(''a'', 0.65), (''b'', 0.10)] \<and>
   fst (query (ref_engine notebook_parse) (Obj (DB 0)) [''a'', ''b''] None world1) =
     Inr [(''a'', 0.65), (''b'', 0.10)] \<and>
   fst (query (ref_engine notebook_parse) (Str m1) [''a'', ''b''] None world1) =
     Inr [(''a'', 0.65), (''b'', 0.10)] \<and>
   fst (run (ref_engine notebook_parse) m1 world1) = Inr [(''a'', 0.65), (''b'', 0.10)] \<and>
   evaluated_by (ref_engine notebook_parse) (DB 0) (engine_state world1)
     [(''a'', 0.65), (''b'', 0.10)] \<and>
   map fst [(''a'', 0.65 :: real), (''b'', 0.10)] = declared_queries m1_program \<and>
   unit_interval [(''a'', 0.65 :: real), (''b'', 0.10)]"
  using probabilities_in_unit_interval [where eng = "ref_engine notebook_parse"
      and db = "DB 0" and w = world1 and mapping = "[(''a'', 0.65), (''b'', 0.10)]"
      and queries = "[''a'', ''b'']" and evidence = None and model_str = m1
      and model = "Obj (DB 0)" and parse = notebook_parse and i = 0 and rw = world1
      and rmapping = "[(''a'', 0.65), (''b'', 0.10)]" and rmodel = "Obj (DB 0)"
      and rqueries = "[''a'', ''b'']" and revidence = None and rtext = m1]
    ref_engine_probabilistic [of notebook_parse]
  by (simp add: evaluate_world1 query_Obj_world1 query_Str_world1 run_world1 calls_world1
      contents_root queries_m1)

subsection \<open>Possible worlds of the model \<open>m4\<close>\<close>

text \<open>
  Claim C7. A possible world is a complete truth assignment to the probabilistic facts and
  its probability is the product of the success probabilities of the facts true in it
  and the failure probabilities of the facts false in it. For \<open>m4\<close>, with the facts
  \<open>0.65::a\<close> and \<open>0.10::b\<close>, the four worlds have the probabilities 0.65 * 0.10,
  0.35 * 0.10, 0.65 * 0.90 and 0.35 * 0.90; the queried atoms \<open>w1\<close>, \<open>w2\<close>, \<open>w3\<close>
  and \<open>w4\<close> get 0.65 * 0.10, 0.65 * 0.90, 0.35 * 0.10 and 0.35 * 0.90, which sum to 1,
  and this is the mapping the introduction notebook's \<open>run\<close> prints for \<open>m4\<close>. For every
  list of probabilistic facts the probabilities of all possible worlds sum to 1.
\<close>

theorem m4_possible_worlds:
  "map (world_prob (facts m4_program)) (assignments (length (facts m4_program))) =
     [0.65 * 0.10, 0.35 * 0.10, 0.65 * 0.90, 0.35 * 0.90] \<and>
   wmc m4_program (declared_queries m4_program) (declared_evidence m4_program) =
     Inr [(''w1'', 0.65 * 0.10), (''w2'', 0.65 * 0.90), (''w3'', 0.35 * 0.10),
          (''w4'', 0.35 * 0.90)] \<and>
   sum_list (map snd [(''w1'', 0.65 * 0.10), (''w2'', 0.65 * 0.90), (''w3'', 0.35 * 0.10),
          (''w4'', 0.35 * 0.90 :: real)]) = 1 \<and>
   stdout (snd (run_intro (ref_engine notebook_parse) m4 world0)) =
     [[(''w1'', 0.65 * 0.10), (''w2'', 0.65 * 0.90), (''w3'', 0.35 * 0.10),
       (''w4'', 0.35 * 0.90)]] \<and>
   (\<forall>fs. sum_list (map (world_prob fs) (assignments (length fs))) = 1)"
proof -
  have "map (world_prob (facts m4_program)) (assignments (length (facts m4_program))) =
     [0.65 * 0.10, 0.35 * 0.10, 0.65 * 0.90, 0.35 * 0.90]"
    unfolding worlds_m4 by (simp add: facts_m4)
  moreover have "stdout (snd (run_intro (ref_engine notebook_parse) m4 world0)) =
     [[(''w1'', 0.65 * 0.10), (''w2'', 0.65 * 0.90), (''w3'', 0.35 * 0.10),
       (''w4'', 0.35 * 0.90)]]"
    by (simp add: run_intro_m4)
  ultimately show ?thesis
    using wmc_m4 total_mass by simp
qed

subsection \<open>Extending a database\<close>

text \<open>The statements seen through a handle depend only on the objects up to that handle.\<close>

lemma contents_agree:
  "i < length st \<Longrightarrow> i < length st' \<Longrightarrow> (\<forall>j \<le> i. st' ! j = st ! j) \<Longrightarrow>
   contents st' i = contents st i"
proof (induction i rule: less_induct)
  case (less i)
  have same: "st' ! i = st ! i" using less.prems(3) by simp
  show ?case
  proof (cases "parent (st ! i)")
    case None
    then show ?thesis using less.prems same by (simp add: contents.simps[of _ i])
  next
    case (Some j)
    show ?thesis
    proof (cases "j < i")
      case True
      then have "contents st' j = contents st j"
        using less.IH[of j] less.prems by simp
      then show ?thesis
        using Some True less.prems same by (simp add: contents.simps[of _ i])
    next
      case False
      then show ?thesis
        using Some less.prems same by (simp add: contents.simps[of _ i])
    qed
  qed
qed

lemma add_statements_ref:
  "d < length (engine_state w) \<Longrightarrow>
   add_statements (ref_engine parse) (DB d) (map Statement cs) w =
     (Inr (DB d),
      w\<lparr>engine_state := (engine_state w)[d := Node (parent (engine_state w ! d))
                                               (own (engine_state w ! d) @ cs)],
        calls := calls w @ replicate (length cs) (DB_iadd, None)\<rparr>)"
proof (induction cs arbitrary: w)
  case Nil
  then show ?case by (simp add: py_return_def)
next
  case (Cons c cs)
  let ?st = "engine_state w"
  let ?w1 = "w\<lparr>engine_state := ?st[d := Node (parent (?st ! d)) (own (?st ! d) @ [c])],
               calls := calls w @ [(DB_iadd, None)]\<rparr>"
  have step: "call DB_iadd (api_iadd (ref_engine parse) (DB d) (Statement c)) w = (Inr (DB d), ?w1)"
    using Cons.prems by (simp add: call_def ref_engine_def ref_iadd_def)
  have d1: "d < length (engine_state ?w1)" using Cons.prems by simp
  show ?case
    using Cons.IH[OF d1] step Cons.prems
    by (simp add: py_bind_def replicate_append_same)
qed

lemma extend_ref:
  assumes "a < length (engine_state w)" and "parse model_str = Some cs"
  shows "extend (ref_engine parse) (DB a) model_str w =
     (Inr (DB (length (engine_state w))),
      w\<lparr>engine_state := engine_state w @ [Node (Some a) cs],
        calls := calls w @ [(DB_extend, None), (New_PrologString, None), (Program_iter, None)]
                  @ replicate (length cs) (DB_iadd, None)\<rparr>)"
proof -
  let ?st = "engine_state w"
  let ?w3 = "w\<lparr>engine_state := ?st @ [Node (Some a) []],
               calls := calls w @ [(DB_extend, None), (New_PrologString, None), (Program_iter, None)]\<rparr>"
  have e: "extend (ref_engine parse) (DB a) model_str w =
      add_statements (ref_engine parse) (DB (length ?st)) (map Statement cs) ?w3"
    using assms by (simp add: extend_def py_bind_def call_def ref_ops)
  have "length ?st < length (engine_state ?w3)" by simp
  from add_statements_ref[OF this, of parse cs] e show ?thesis
    by simp
qed

text \<open>
  Claim C2. On the reference engine, for every handle \<open>db\<close> of the engine's store and
  every program text \<open>s\<close> that parses, \<open>extend(db, s)\<close> returns a handle that the store
  did not hold before the call, so one distinct from \<open>db\<close>; through the new handle the
  statements of \<open>db\<close> are seen, followed by the statements of \<open>s\<close>; and every object
  the store held before the call, the one \<open>db\<close> names among them, is as it was, with
  the same statements seen through its handle.
\<close>

theorem extend_layers_on_new_handle:
  assumes "a < length (engine_state w)" and "parse model_str = Some cs"
  shows "fst (extend (ref_engine parse) (DB a) model_str w) = Inr (DB (length (engine_state w))) \<and>
     DB (length (engine_state w)) \<noteq> DB a \<and>
     contents (engine_state (snd (extend (ref_engine parse) (DB a) model_str w)))
        (length (engine_state w)) = contents (engine_state w) a @ cs \<and>
     (\<forall>i < length (engine_state w).
        engine_state (snd (extend (ref_engine parse) (DB a) model_str w)) ! i = engine_state w ! i \<and>
        contents (engine_state (snd (extend (ref_engine parse) (DB a) model_str w))) i =
          contents (engine_state w) i)"
proof -
  let ?st = "engine_state w"
  let ?st' = "?st @ [Node (Some a) cs]"
  have st': "engine_state (snd (extend (ref_engine parse) (DB a) model_str w)) = ?st'"
    and r: "fst (extend (ref_engine parse) (DB a) model_str w) = Inr (DB (length ?st))"
    using extend_ref[of a w parse model_str cs] assms by simp_all
  have old: "?st' ! i = ?st ! i \<and> contents ?st' i = contents ?st i" if "i < length ?st" for i
  proof -
    have "\<forall>j \<le> i. ?st' ! j = ?st ! j" using that by (simp add: nth_append)
    then show ?thesis using that contents_agree[of i ?st ?st'] by (simp add: nth_append)
  qed
  have new: "contents ?st' (length ?st) = contents ?st a @ cs"
    using assms(1) old[of a] by (simp add: contents.simps[of ?st' "length ?st"])
  show ?thesis using r st' old new assms(1) by simp
qed

text \<open>
  The theorem at the database of \<open>m1\<close> extended by the text \<open>m4\<close>: the new handle is
  \<open>DB 1\<close>, it shows the statements of both, and \<open>DB 0\<close> still shows those of \<open>m1\<close>.
\<close>

theorem extend_layers_on_new_handle_witness:
  "fst (extend (ref_engine notebook_parse) (DB 0) m4 world1) = Inr (DB 1) \<and>
   contents (engine_state (snd (extend (ref_engine notebook_parse) (DB 0) m4 world1))) 1 =
     m1_program @ m4_program \<and>
   contents (engine_state (snd (extend (ref_engine notebook_parse) (DB 0) m4 world1))) 0 =
     m1_program \<and>
   engine_state (snd (extend (ref_engine notebook_parse) (DB 0) m4 world1)) ! 0 =
     Node None m1_program"
  using extend_layers_on_new_handle [where a = 0 and w = world1 and parse = notebook_parse
      and model_str = m4 and cs = m4_program]
  by (simp add: calls_world1 parse_m4 contents_root)

end
